theory Spec2Isabelle
  imports Complex_Main "HOL-Library.Multiset" "HOL-Library.AList" "HOL-Library.Sublist"
begin

section \<open>Common Python values\<close>

text \<open>
  The two services under \<^verbatim>\<open>src/ai-services/services\<close> are modelled function by function.
  Python floats are modelled as reals, Python ints as \<open>int\<close>, strings as \<open>string\<close>.
  Every \<^verbatim>\<open>raise\<close> of the source is a value \<open>Inl e\<close> of a sum type; every
  \<^verbatim>\<open>except\<close> handler is the \<open>Inl\<close> branch of a case distinction.
\<close>

datatype py_error =
    ValueError string
  | IndexError
  | ZeroDivisionError

text \<open>Python's true division \<^verbatim>\<open>a / b\<close>: raises on a zero divisor.\<close>

definition py_div :: "real \<Rightarrow> real \<Rightarrow> py_error + real" where
  "py_div a b = (if b = 0 then Inl ZeroDivisionError else Inr (a / b))"

text \<open>Python's \<^verbatim>\<open>int(x)\<close> on a float: truncation towards zero.\<close>

definition py_int :: "real \<Rightarrow> int" where
  "py_int x = (if 0 \<le> x then \<lfloor>x\<rfloor> else \<lceil>x\<rceil>)"

text \<open>
  Python's \<^verbatim>\<open>round(x, n)\<close>: the nearest multiple of \<open>10\<^sup>-\<^sup>n\<close>, a tie going to
  the even neighbour.
\<close>

definition round_half_even :: "real \<Rightarrow> int" where
  "round_half_even s =
     (let f = \<lfloor>s\<rfloor>; d = s - of_int f
      in if d < 1 / 2 then f
         else if 1 / 2 < d then f + 1
         else if even f then f else f + 1)"

definition py_round :: "real \<Rightarrow> nat \<Rightarrow> real" where
  "py_round x n = of_int (round_half_even (x * 10 ^ n)) / 10 ^ n"

text \<open>
  \<^verbatim>\<open>geodesic(p, q).kilometers\<close> comes from the geopy library, which is not part of
  the repository: the distance is a parameter of every function that calls it. The
  specification (4.1) describes it as total on coordinates.
\<close>

type_synonym geodesic = "real \<times> real \<Rightarrow> real \<times> real \<Rightarrow> real"

text \<open>
  A simple distance used where an example has to be evaluated: it is zero exactly on
  coincident points, as the geodesic distance is.
\<close>

definition grid_km :: geodesic where
  "grid_km p q = \<bar>fst p - fst q\<bar> + \<bar>snd p - snd q\<bar>"

section \<open>Route optimisation: data\<close>

text \<open>The dataclass \<^verbatim>\<open>Waypoint\<close>; the fields \<^verbatim>\<open>id\<close> and \<^verbatim>\<open>type\<close> are prefixed.\<close>

record waypoint =
  wp_id :: string
  wp_type :: string
  latitude :: real
  longitude :: real
  address :: string
  passenger_id :: string
  estimated_time :: int
  priority :: int

definition coords :: "waypoint \<Rightarrow> real \<times> real" where
  "coords w = (latitude w, longitude w)"

section \<open>Route metrics\<close>

text \<open>\<^verbatim>\<open>_calculate_total_distance\<close>: the sum of the consecutive legs, 0 below two waypoints.\<close>

fun calculate_total_distance :: "geodesic \<Rightarrow> waypoint list \<Rightarrow> real" where
  "calculate_total_distance geo (a # b # ws) =
     geo (coords a) (coords b) + calculate_total_distance geo (b # ws)"
| "calculate_total_distance geo _ = 0"

text \<open>
  \<^verbatim>\<open>_calculate_efficiency_score\<close>. The division raises when the optimised distance
  is zero and the sequential one is not; the handler of the function returns 0.5.
\<close>

definition calculate_efficiency_score :: "geodesic \<Rightarrow> waypoint list \<Rightarrow> waypoint list \<Rightarrow> real" where
  "calculate_efficiency_score geo optimized original =
     (let sequential_distance = calculate_total_distance geo original;
          optimized_distance = calculate_total_distance geo optimized
      in if sequential_distance = 0 then 1
         else (case py_div sequential_distance optimized_distance of
                 Inl e \<Rightarrow> 1 / 2
               | Inr q \<Rightarrow> max 0 (min 1 q)))"

text \<open>
  \<^verbatim>\<open>_calculate_total_time\<close>: driving time at \<^verbatim>\<open>avg_speed_kmh = 30\<close> plus the
  stop time of every waypoint but the last, truncated to an int.
\<close>

definition avg_speed_kmh :: real where
  "avg_speed_kmh = 30"

definition calculate_total_time :: "geodesic \<Rightarrow> waypoint list \<Rightarrow> int" where
  "calculate_total_time geo wps =
     (if length wps < 2 then 0
      else let total_distance = calculate_total_distance geo wps;
               driving_time = (total_distance / avg_speed_kmh) * 3600;
               stop_time = sum_list (map estimated_time (butlast wps))
           in py_int (driving_time + of_int stop_time))"

section \<open>The sequencer\<close>

text \<open>
  The \<^verbatim>\<open>constraints\<close> dictionary; only the key \<^verbatim>\<open>max_passengers\<close> is ever read.
  \<^verbatim>\<open>constraints.get('max_passengers', self.max_passengers)\<close> falls back to the
  service's \<^verbatim>\<open>max_passengers = 4\<close>.
\<close>

record constraints =
  max_passengers :: "int option"

definition service_max_passengers :: int where
  "service_max_passengers = 4"

definition get_max_passengers :: "constraints \<Rightarrow> int" where
  "get_max_passengers cons =
     (case max_passengers cons of None \<Rightarrow> service_max_passengers | Some m \<Rightarrow> m)"

text \<open>\<^verbatim>\<open>list.remove(x)\<close>: drops the first element equal to \<open>x\<close>, raises when there is none.\<close>

definition py_remove :: "'a \<Rightarrow> 'a list \<Rightarrow> py_error + 'a list" where
  "py_remove x xs =
     (if x \<in> set xs then Inr (remove1 x xs) else Inl (ValueError ''list.remove(x): x not in list''))"

text \<open>
  The inner \<^verbatim>\<open>for candidate in candidates\<close> loop. The pair of \<^verbatim>\<open>next_waypoint\<close> and
  \<^verbatim>\<open>min_distance\<close> starts as \<open>None\<close> (no waypoint, distance \<open>inf\<close>) and is replaced
  only by a strictly smaller distance, so the first of several nearest candidates wins.
\<close>

fun find_nearest ::
  "geodesic \<Rightarrow> waypoint \<Rightarrow> waypoint list \<Rightarrow> (waypoint \<times> real) option \<Rightarrow> (waypoint \<times> real) option"
where
  "find_nearest geo current_location [] best = best"
| "find_nearest geo current_location (candidate # rest) best =
     (let distance = geo (coords current_location) (coords candidate)
      in find_nearest geo current_location rest
           (case best of
              None \<Rightarrow> Some (candidate, distance)
            | Some (next_waypoint, min_distance) \<Rightarrow>
                if distance < min_distance then Some (candidate, distance) else best))"

text \<open>
  The \<^verbatim>\<open>while remaining_pickups or remaining_dropoffs\<close> loop of
  \<^verbatim>\<open>_optimize_multi_passenger_route\<close>, with its state passed explicitly: the current
  location, the remaining pickups and dropoffs, the set of passengers in the car and the
  route built so far.
\<close>

function visit_loop ::
  "geodesic \<Rightarrow> constraints \<Rightarrow> waypoint \<Rightarrow> waypoint list \<Rightarrow> waypoint list \<Rightarrow> string set \<Rightarrow>
   waypoint list \<Rightarrow> py_error + waypoint list"
where
  "visit_loop geo cons current_location remaining_pickups remaining_dropoffs passenger_in_car
       optimized_route =
     (if remaining_pickups = [] \<and> remaining_dropoffs = [] then Inr optimized_route
      else
        let available_dropoffs =
              filter (\<lambda>dp. passenger_id dp \<in> passenger_in_car) remaining_dropoffs;
            candidates =
              (if get_max_passengers cons \<le> int (card passenger_in_car) then available_dropoffs
               else remaining_pickups @ available_dropoffs)
        in case find_nearest geo current_location candidates None of
             None \<Rightarrow> Inr (optimized_route @ remaining_pickups @ remaining_dropoffs)
           | Some (next_waypoint, min_distance) \<Rightarrow>
               if wp_type next_waypoint = ''pickup'' then
                 (case py_remove next_waypoint remaining_pickups of
                    Inl e \<Rightarrow> Inl e
                  | Inr pickups' \<Rightarrow>
                      visit_loop geo cons next_waypoint pickups' remaining_dropoffs
                        (insert (passenger_id next_waypoint) passenger_in_car)
                        (optimized_route @ [next_waypoint]))
               else
                 (case py_remove next_waypoint remaining_dropoffs of
                    Inl e \<Rightarrow> Inl e
                  | Inr dropoffs' \<Rightarrow>
                      visit_loop geo cons next_waypoint remaining_pickups dropoffs'
                        (passenger_in_car - {passenger_id next_waypoint})
                        (optimized_route @ [next_waypoint])))"
  by pat_completeness auto
termination
proof (relation "measure (\<lambda>(geo, cons, cur, rp, rd, car, route). length rp + length rd)")
  show "wf (measure (\<lambda>(geo, cons, cur, rp, rd, car, route). length rp + length rd))"
    by simp
next
  fix remaining_pickups :: "waypoint list" and next_waypoint pickups'
  assume "py_remove next_waypoint remaining_pickups = Inr pickups'"
  then have m: "next_waypoint \<in> set remaining_pickups"
    and e: "pickups' = remove1 next_waypoint remaining_pickups"
    by (auto simp: py_remove_def split: if_splits)
  from m have "0 < length remaining_pickups"
    by (rule length_pos_if_in_set)
  with m e have "length pickups' < length remaining_pickups"
    by (simp add: length_remove1)
  then show "\<And>geo cons rd car route cur.
      ((geo, cons, next_waypoint, pickups', rd, insert (passenger_id next_waypoint) car,
          route @ [next_waypoint]),
       (geo, cons, cur, remaining_pickups, rd, car, route))
      \<in> measure (\<lambda>(geo, cons, cur, rp, rd, car, route). length rp + length rd)"
    by simp
next
  fix remaining_dropoffs :: "waypoint list" and next_waypoint dropoffs'
  assume "py_remove next_waypoint remaining_dropoffs = Inr dropoffs'"
  then have m: "next_waypoint \<in> set remaining_dropoffs"
    and e: "dropoffs' = remove1 next_waypoint remaining_dropoffs"
    by (auto simp: py_remove_def split: if_splits)
  from m have "0 < length remaining_dropoffs"
    by (rule length_pos_if_in_set)
  with m e have "length dropoffs' < length remaining_dropoffs"
    by (simp add: length_remove1)
  then show "\<And>geo cons rp car route cur.
      ((geo, cons, next_waypoint, rp, dropoffs', car - {passenger_id next_waypoint},
          route @ [next_waypoint]),
       (geo, cons, cur, rp, remaining_dropoffs, car, route))
      \<in> measure (\<lambda>(geo, cons, cur, rp, rd, car, route). length rp + length rd)"
    by simp
qed

declare visit_loop.simps [simp del]

text \<open>
  The body of the \<^verbatim>\<open>try\<close> of \<^verbatim>\<open>_optimize_multi_passenger_route\<close>. The first
  pickup, when there is one, is visited before the loop; \<^verbatim>\<open>dropoffs[0]\<close> raises when
  both lists are empty.
\<close>

definition multi_passenger_try ::
  "geodesic \<Rightarrow> waypoint list \<Rightarrow> waypoint list \<Rightarrow> constraints \<Rightarrow> py_error + waypoint list" where
  "multi_passenger_try geo pickups dropoffs cons =
     (case pickups of
        first_pickup # remaining_pickups \<Rightarrow>
          visit_loop geo cons first_pickup remaining_pickups dropoffs
            {passenger_id first_pickup} [first_pickup]
      | [] \<Rightarrow>
          (case dropoffs of
             [] \<Rightarrow> Inl IndexError
           | current_location # _ \<Rightarrow> visit_loop geo cons current_location [] dropoffs {} []))"

text \<open>\<^verbatim>\<open>_optimize_multi_passenger_route\<close>: any exception yields \<^verbatim>\<open>pickups + dropoffs\<close>.\<close>

definition optimize_multi_passenger_route ::
  "geodesic \<Rightarrow> waypoint list \<Rightarrow> waypoint list \<Rightarrow> constraints \<Rightarrow> waypoint list" where
  "optimize_multi_passenger_route geo pickups dropoffs cons =
     (case multi_passenger_try geo pickups dropoffs cons of
        Inl e \<Rightarrow> pickups @ dropoffs
      | Inr optimized_route \<Rightarrow> optimized_route)"

text \<open>
  The dataclass \<^verbatim>\<open>OptimizedRoute\<close>. Its \<^verbatim>\<open>passenger_routes\<close> field is always the
  empty dictionary and is left out.
\<close>

record optimized_route =
  waypoints :: "waypoint list"
  total_distance :: real
  total_time :: int
  total_cost :: real
  efficiency_score :: real

text \<open>
  \<^verbatim>\<open>_optimize_with_genetic_algorithm\<close>, in two steps: \<open>sequence_waypoints\<close> is the
  first part of its body, which splits the waypoints by type and chooses the order; the
  function itself adds the metrics. No call in the body of its \<^verbatim>\<open>try\<close> raises on
  values of these types (the callees catch their own exceptions), so its handler, which
  would return the input order with an efficiency score of 0.5, is not a branch here.
\<close>

definition sequence_waypoints :: "geodesic \<Rightarrow> waypoint list \<Rightarrow> constraints \<Rightarrow> waypoint list" where
  "sequence_waypoints geo wps cons =
     (let pickups = filter (\<lambda>wp. wp_type wp = ''pickup'') wps;
          dropoffs = filter (\<lambda>wp. wp_type wp = ''dropoff'') wps
      in if length pickups = 1 \<and> length dropoffs = 1 then pickups @ dropoffs
         else optimize_multi_passenger_route geo pickups dropoffs cons)"

definition optimize_with_genetic_algorithm ::
  "geodesic \<Rightarrow> waypoint list \<Rightarrow> constraints \<Rightarrow> optimized_route" where
  "optimize_with_genetic_algorithm geo wps cons =
     (let optimized_waypoints = sequence_waypoints geo wps cons
      in \<lparr>waypoints = optimized_waypoints,
          total_distance = calculate_total_distance geo optimized_waypoints,
          total_time = calculate_total_time geo optimized_waypoints,
          total_cost = 0,
          efficiency_score = calculate_efficiency_score geo optimized_waypoints wps\<rparr>)"

section \<open>Per-passenger routes\<close>

text \<open>The per-passenger dictionaries built by \<^verbatim>\<open>_calculate_passenger_routes\<close>.\<close>

record location =
  loc_latitude :: real
  loc_longitude :: real
  loc_address :: string

record passenger_route =
  pickup_order :: int
  dropoff_order :: int
  direct_distance_km :: real
  estimated_pickup_time :: int
  estimated_dropoff_time :: int
  estimated_ride_time_minutes :: real
  pickup_location :: location
  dropoff_location :: location

text \<open>
  \<^verbatim>\<open>next((i for i, wp in enumerate(route) if wp.id == x), -1)\<close>: the first index of
  a waypoint with the given id, or \<open>-1\<close>.
\<close>

definition index_of_id :: "string \<Rightarrow> waypoint list \<Rightarrow> int" where
  "index_of_id x route =
     (case find (\<lambda>(i, wp). wp_id wp = x) (enumerate 0 route) of
        None \<Rightarrow> - 1
      | Some (i, wp) \<Rightarrow> int i)"

text \<open>
  \<^verbatim>\<open>_calculate_waypoint_eta\<close>: 0 for an index out of range; otherwise driving and
  stop time of the legs before the index, truncated.
\<close>

definition calculate_waypoint_eta :: "geodesic \<Rightarrow> waypoint list \<Rightarrow> int \<Rightarrow> int" where
  "calculate_waypoint_eta geo wps waypoint_index =
     (if waypoint_index < 0 \<or> int (length wps) \<le> waypoint_index then 0
      else py_int (sum_list (map
             (\<lambda>i. if int i < int (length wps) - 1
                  then (geo (coords (wps ! i)) (coords (wps ! (i + 1))) / avg_speed_kmh) * 3600
                       + of_int (estimated_time (wps ! i))
                  else 0)
             [0 ..< nat waypoint_index])))"

text \<open>
  The grouping loop: a dictionary from passenger id to its pickup and dropoff, in order
  of first occurrence; a later waypoint of the same kind replaces an earlier one, and any
  waypoint that is not a pickup is stored as the dropoff.
\<close>

fun group_by_passenger ::
  "waypoint list \<Rightarrow> (string \<times> waypoint option \<times> waypoint option) list \<Rightarrow>
   (string \<times> waypoint option \<times> waypoint option) list"
where
  "group_by_passenger [] passenger_waypoints = passenger_waypoints"
| "group_by_passenger (wp # rest) passenger_waypoints =
     (let (pickup, dropoff) =
            (case map_of passenger_waypoints (passenger_id wp) of
               None \<Rightarrow> (None, None)
             | Some entry \<Rightarrow> entry)
      in group_by_passenger rest
           (AList.update (passenger_id wp)
              (if wp_type wp = ''pickup'' then (Some wp, dropoff) else (pickup, Some wp))
              passenger_waypoints))"

text \<open>The dictionary built for one passenger with both a pickup and a dropoff.\<close>

definition passenger_route_of ::
  "geodesic \<Rightarrow> waypoint list \<Rightarrow> waypoint \<Rightarrow> waypoint \<Rightarrow> passenger_route" where
  "passenger_route_of geo route pickup dropoff =
     (let pickup_index = index_of_id (wp_id pickup) route;
          dropoff_index = index_of_id (wp_id dropoff) route;
          passenger_distance = geo (coords pickup) (coords dropoff);
          pickup_eta = calculate_waypoint_eta geo route pickup_index;
          dropoff_eta = calculate_waypoint_eta geo route dropoff_index
      in \<lparr>pickup_order = pickup_index + 1,
          dropoff_order = dropoff_index + 1,
          direct_distance_km = py_round passenger_distance 2,
          estimated_pickup_time = pickup_eta,
          estimated_dropoff_time = dropoff_eta,
          estimated_ride_time_minutes = py_round (of_int (dropoff_eta - pickup_eta) / 60) 1,
          pickup_location = \<lparr>loc_latitude = latitude pickup, loc_longitude = longitude pickup,
             loc_address = address pickup\<rparr>,
          dropoff_location = \<lparr>loc_latitude = latitude dropoff, loc_longitude = longitude dropoff,
             loc_address = address dropoff\<rparr>\<rparr>)"

text \<open>
  \<^verbatim>\<open>_calculate_passenger_routes\<close>: one entry for every passenger that has both a
  pickup and a dropoff among the original waypoints. Nothing in the body of its
  \<^verbatim>\<open>try\<close> raises on values of these types.
\<close>

definition calculate_passenger_routes ::
  "geodesic \<Rightarrow> optimized_route \<Rightarrow> waypoint list \<Rightarrow> (string \<times> passenger_route) list" where
  "calculate_passenger_routes geo optimized wps =
     List.map_filter
       (\<lambda>(pid, psgr_waypoints).
          case psgr_waypoints of
            (Some pickup, Some dropoff) \<Rightarrow>
              Some (pid, passenger_route_of geo (waypoints optimized) pickup dropoff)
          | _ \<Rightarrow> None)
       (group_by_passenger wps [])"

section \<open>The entry point of route optimisation\<close>

text \<open>
  A waypoint as the caller passes it: a dictionary in which any key may be absent.
\<close>

record waypoint_dict =
  dict_id :: "string option"
  dict_type :: "string option"
  dict_latitude :: "real option"
  dict_longitude :: "real option"
  dict_address :: "string option"
  dict_passenger_id :: "string option"
  dict_estimated_time :: "int option"
  dict_priority :: "int option"

text \<open>Decimal digits of a natural number, for the default ids \<^verbatim>\<open>f'waypoint_{i}'\<close>.\<close>

fun str_nat :: "nat \<Rightarrow> string" where
  "str_nat n =
     (if n < 10 then [''0123456789'' ! n]
      else str_nat (n div 10) @ [''0123456789'' ! (n mod 10)])"

declare str_nat.simps [simp del]

definition pickup_time_seconds :: int where
  "pickup_time_seconds = 120"

text \<open>\<^verbatim>\<open>_parse_waypoints\<close>, with the index of \<^verbatim>\<open>enumerate\<close> as an argument.\<close>

fun parse_waypoints_from :: "nat \<Rightarrow> waypoint_dict list \<Rightarrow> waypoint list" where
  "parse_waypoints_from i [] = []"
| "parse_waypoints_from i (wp # rest) =
     \<lparr>wp_id = (case dict_id wp of Some v \<Rightarrow> v | None \<Rightarrow> ''waypoint_'' @ str_nat i),
      wp_type = (case dict_type wp of Some v \<Rightarrow> v | None \<Rightarrow> ''pickup''),
      latitude = (case dict_latitude wp of Some v \<Rightarrow> v | None \<Rightarrow> 0),
      longitude = (case dict_longitude wp of Some v \<Rightarrow> v | None \<Rightarrow> 0),
      address = (case dict_address wp of Some v \<Rightarrow> v | None \<Rightarrow> []),
      passenger_id =
        (case dict_passenger_id wp of Some v \<Rightarrow> v | None \<Rightarrow> ''passenger_'' @ str_nat i),
      estimated_time =
        (case dict_estimated_time wp of Some v \<Rightarrow> v | None \<Rightarrow> pickup_time_seconds),
      priority = (case dict_priority wp of Some v \<Rightarrow> v | None \<Rightarrow> 1)\<rparr>
     # parse_waypoints_from (Suc i) rest"

definition parse_waypoints :: "waypoint_dict list \<Rightarrow> waypoint list" where
  "parse_waypoints wps = parse_waypoints_from 0 wps"

definition waypoint_to_dict :: "waypoint \<Rightarrow> waypoint_dict" where
  "waypoint_to_dict w =
     \<lparr>dict_id = Some (wp_id w), dict_type = Some (wp_type w),
      dict_latitude = Some (latitude w), dict_longitude = Some (longitude w),
      dict_address = Some (address w), dict_passenger_id = Some (passenger_id w),
      dict_estimated_time = Some (estimated_time w), dict_priority = Some (priority w)\<rparr>"

text \<open>
  The dictionary that \<^verbatim>\<open>optimize_route\<close> returns. The key \<^verbatim>\<open>error\<close> is present
  only in the fallback; the \<^verbatim>\<open>timestamp\<close> comes from the clock and is left out.
\<close>

record route_summary =
  total_distance_km :: real
  total_time_minutes :: real
  summary_efficiency_score :: real
  total_passengers :: int

record optimization_metadata =
  algorithm :: string
  optimization_time_ms :: int
  iterations :: int

record route_response =
  optimized_waypoints :: "waypoint_dict list"
  summary :: route_summary
  passenger_routes :: "(string \<times> passenger_route) list"
  metadata :: optimization_metadata
  error :: "string option"

text \<open>\<^verbatim>\<open>_fallback_route_optimization\<close>: the input unchanged and fixed estimates.\<close>

definition fallback_route_optimization :: "waypoint_dict list \<Rightarrow> route_response" where
  "fallback_route_optimization wps =
     \<lparr>optimized_waypoints = wps,
      summary = \<lparr>total_distance_km = 10, total_time_minutes = 30,
         summary_efficiency_score = 1 / 2,
         total_passengers = int (card (dict_passenger_id ` set wps))\<rparr>,
      passenger_routes = [],
      metadata = \<lparr>algorithm = ''fallback'', optimization_time_ms = 0, iterations = 0\<rparr>,
      error = Some ''Route optimization failed, using fallback''\<rparr>"

text \<open>
  \<^verbatim>\<open>set(w.passenger_id for w in waypoint_objects if w.passenger_id)\<close>: the distinct
  non-empty passenger ids.
\<close>

definition passengers_of :: "waypoint list \<Rightarrow> string set" where
  "passengers_of waypoint_objects =
     set (filter (\<lambda>p. p \<noteq> []) (map passenger_id waypoint_objects))"

text \<open>\<^verbatim>\<open>constraints = constraints or {}\<close>.\<close>

definition constraints_or_empty :: "constraints option \<Rightarrow> constraints" where
  "constraints_or_empty c = (case c of None \<Rightarrow> \<lparr>max_passengers = None\<rparr> | Some cons \<Rightarrow> cons)"

text \<open>
  The body of the \<^verbatim>\<open>try\<close> of \<^verbatim>\<open>optimize_route\<close>. What \<^verbatim>\<open>redis.get\<close> returns
  for the cache key is the argument \<open>cached_result\<close>; writing the result back to the
  cache does not change the value returned and is not modelled. The message of the second
  \<^verbatim>\<open>ValueError\<close> is shortened to its constant part.
\<close>

definition optimize_route_try ::
  "geodesic \<Rightarrow> route_response option \<Rightarrow> waypoint_dict list \<Rightarrow> constraints option \<Rightarrow>
   py_error + route_response" where
  "optimize_route_try geo cached_result wps constraints =
     (let waypoint_objects = parse_waypoints wps
      in if length waypoint_objects < 2 then Inl (ValueError ''At least 2 waypoints required'')
         else (case cached_result of
                 Some cached \<Rightarrow> Inr cached
               | None \<Rightarrow>
                   let cons = constraints_or_empty constraints;
                       max_p = min (get_max_passengers cons) service_max_passengers;
                       passengers = passengers_of waypoint_objects
                   in if max_p < int (card passengers) then Inl (ValueError ''Too many passengers'')
                      else
                        let optimized = optimize_with_genetic_algorithm geo waypoint_objects cons;
                            routes = calculate_passenger_routes geo optimized waypoint_objects
                        in Inr \<lparr>optimized_waypoints = map waypoint_to_dict (waypoints optimized),
                             summary =
                               \<lparr>total_distance_km = py_round (total_distance optimized) 2,
                                total_time_minutes =
                                  py_round (of_int (total_time optimized) / 60) 1,
                                summary_efficiency_score =
                                  py_round (efficiency_score optimized) 3,
                                total_passengers = int (card passengers)\<rparr>,
                             passenger_routes = routes,
                             metadata = \<lparr>algorithm = ''genetic_algorithm'',
                                optimization_time_ms = 0, iterations = 100\<rparr>,
                             error = None\<rparr>))"

text \<open>
  \<^verbatim>\<open>optimize_route\<close>: every exception of the body is caught and answered with the
  fallback, so the caller always receives a dictionary.
\<close>

definition optimize_route ::
  "geodesic \<Rightarrow> route_response option \<Rightarrow> waypoint_dict list \<Rightarrow> constraints option \<Rightarrow>
   py_error + route_response" where
  "optimize_route geo cached_result wps constraints =
     (case optimize_route_try geo cached_result wps constraints of
        Inl e \<Rightarrow> Inr (fallback_route_optimization wps)
      | Inr result \<Rightarrow> Inr result)"

text \<open>A waypoint dictionary with only type and passenger id given.\<close>

definition mk_dict :: "string \<Rightarrow> string \<Rightarrow> waypoint_dict" where
  "mk_dict t p = \<lparr>dict_id = None, dict_type = Some t, dict_latitude = None,
     dict_longitude = None, dict_address = None, dict_passenger_id = Some p,
     dict_estimated_time = None, dict_priority = None\<rparr>"

text \<open>Five pickups of five different passengers.\<close>

definition five_passengers :: "waypoint_dict list" where
  "five_passengers = [mk_dict ''pickup'' ''a'', mk_dict ''pickup'' ''b'', mk_dict ''pickup'' ''c'',
     mk_dict ''pickup'' ''d'', mk_dict ''pickup'' ''e'']"

section \<open>Ride matching\<close>

text \<open>
  A row of available rides as \<^verbatim>\<open>_get_available_rides\<close> returns it. The four
  coordinate keys are set only when the row has coordinates, so each may be absent. Times
  are seconds on the clock's scale. Keys that clash with fields of \<^verbatim>\<open>RideMatch\<close> are
  prefixed with \<open>row\<close>; the vehicle's \<^verbatim>\<open>make\<close> is \<open>vehicle_make\<close>.
\<close>

record vehicle_info =
  vehicle_make :: string
  model :: string
  year :: int
  color :: string
  license_plate :: string

record ride =
  row_ride_id :: string
  row_driver_id :: string
  origin_lat :: "real option"
  origin_lng :: "real option"
  destination_lat :: "real option"
  destination_lng :: "real option"
  departure_time :: real
  row_available_seats :: int
  row_price_per_seat :: real
  row_driver_rating :: real
  row_vehicle :: vehicle_info

text \<open>The preferences dictionary, each key optional.\<close>

record vehicle_preferences =
  preferred_types :: "string list option"
  max_age :: "int option"

record preferences =
  max_distance :: "real option"
  max_time_difference :: "real option"
  max_price :: "real option"
  seats_needed :: "int option"
  vehicle_prefs :: "vehicle_preferences option"

text \<open>The dataclass \<^verbatim>\<open>RideMatch\<close>; the two estimated times are seconds, not ISO strings.\<close>

record ride_match =
  ride_id :: string
  driver_id :: string
  compatibility_score :: real
  distance_from_origin :: real
  distance_to_destination :: real
  time_deviation :: real
  price_per_seat :: real
  available_seats :: int
  driver_rating :: real
  vehicle_info :: vehicle_info
  estimated_pickup_at :: real
  estimated_arrival_at :: real
  route_efficiency :: real

text \<open>
  \<^verbatim>\<open>_calculate_vehicle_score\<close>; the year of \<^verbatim>\<open>datetime.now()\<close> is an argument.
\<close>

definition calculate_vehicle_score :: "int \<Rightarrow> ride \<Rightarrow> vehicle_preferences option \<Rightarrow> real" where
  "calculate_vehicle_score current_year r prefs =
     (case prefs of
        None \<Rightarrow> 1
      | Some vp \<Rightarrow>
          if preferred_types vp = None \<and> max_age vp = None then 1
          else (case max_age vp of
                  None \<Rightarrow> 1
                | Some a \<Rightarrow> if a < current_year - year (row_vehicle r) then 1 * (7 / 10) else 1))"

text \<open>
  \<^verbatim>\<open>_calculate_route_efficiency\<close>. With a total distance function nothing in the body
  of its \<^verbatim>\<open>try\<close> raises, so its handler (which returns 0.5) is not a branch.
\<close>

definition calculate_route_efficiency ::
  "geodesic \<Rightarrow> real \<times> real \<Rightarrow> real \<times> real \<Rightarrow> real \<times> real \<Rightarrow> real \<times> real \<Rightarrow> real" where
  "calculate_route_efficiency geo passenger_origin passenger_destination ride_origin
       ride_destination =
     (let passenger_direct = geo passenger_origin passenger_destination;
          leg1 = geo passenger_origin ride_origin;
          leg2 = geo ride_origin ride_destination;
          leg3 = geo ride_destination passenger_destination;
          total_via_ride = leg1 + leg2 + leg3
      in if total_via_ride = 0 then 0 else min 1 (passenger_direct / total_via_ride))"

text \<open>\<^verbatim>\<open>_estimate_times\<close> at an average of 40 km/h.\<close>

definition estimate_times :: "real \<Rightarrow> real \<Rightarrow> real \<Rightarrow> real \<times> real" where
  "estimate_times ride_departure origin_distance destination_distance =
     (let pickup_time = ride_departure + (origin_distance / 40) * 3600;
          arrival_time = pickup_time + (destination_distance / 40) * 3600
      in (pickup_time, arrival_time))"

text \<open>A division whose \<^verbatim>\<open>ZeroDivisionError\<close> ends the computation without a value.\<close>

definition div_or_none :: "real \<Rightarrow> real \<Rightarrow> real option" where
  "div_or_none a b = (case py_div a b of Inl e \<Rightarrow> None | Inr q \<Rightarrow> Some q)"

text \<open>
  \<^verbatim>\<open>_calculate_compatibility\<close>. Every exception of the body (a missing coordinate
  key, a division by zero) is caught and answered with \<^verbatim>\<open>None\<close>.
\<close>

definition calculate_compatibility ::
  "geodesic \<Rightarrow> int \<Rightarrow> ride \<Rightarrow> real \<times> real \<Rightarrow> real \<times> real \<Rightarrow> real \<Rightarrow> preferences \<Rightarrow>
   ride_match option" where
  "calculate_compatibility geo current_year r origin destination departure prefs =
     (case (origin_lat r, origin_lng r, destination_lat r, destination_lng r) of
        (Some olat, Some olng, Some dlat, Some dlng) \<Rightarrow>
          (let ride_origin = (olat, olng);
               ride_destination = (dlat, dlng);
               origin_distance = geo origin ride_origin;
               destination_distance = geo destination ride_destination;
               max_acceptable_distance = (case max_distance prefs of None \<Rightarrow> 10 | Some d \<Rightarrow> d);
               time_diff = \<bar>(departure - departure_time r) / 3600\<bar>;
               max_time_diff = (case max_time_difference prefs of None \<Rightarrow> 2 | Some t \<Rightarrow> t);
               price = row_price_per_seat r;
               max_p = (case max_price prefs of None \<Rightarrow> price * (3 / 2) | Some p \<Rightarrow> p);
               needed = (case seats_needed prefs of None \<Rightarrow> 1 | Some n \<Rightarrow> n)
           in case div_or_none (origin_distance + destination_distance)
                     (2 * max_acceptable_distance) of
                None \<Rightarrow> None
              | Some q1 \<Rightarrow>
             (case div_or_none time_diff max_time_diff of
                None \<Rightarrow> None
              | Some q2 \<Rightarrow>
             (case div_or_none (max 0 (price - max_p)) max_p of
                None \<Rightarrow> None
              | Some q3 \<Rightarrow>
             (case div_or_none (of_int (row_available_seats r)) (of_int needed) of
                None \<Rightarrow> None
              | Some q4 \<Rightarrow>
                  let distance_score = max 0 (1 - q1);
                      time_score = max 0 (1 - q2);
                      price_score = max 0 (1 - q3);
                      rating_score = (row_driver_rating r - 1) / 4;
                      vehicle_score = calculate_vehicle_score current_year r (vehicle_prefs prefs);
                      efficiency = calculate_route_efficiency geo origin destination
                                     ride_origin ride_destination;
                      availability_score = min 1 q4;
                      score = distance_score * (25 / 100) + time_score * (20 / 100)
                            + price_score * (15 / 100) + rating_score * (15 / 100)
                            + vehicle_score * (10 / 100) + efficiency * (10 / 100)
                            + availability_score * (5 / 100);
                      (pickup_time, arrival_time) =
                        estimate_times (departure_time r) origin_distance destination_distance
                  in Some \<lparr>ride_id = row_ride_id r, driver_id = row_driver_id r,
                          compatibility_score = score,
                          distance_from_origin = origin_distance,
                          distance_to_destination = destination_distance,
                          time_deviation = time_diff,
                          price_per_seat = price,
                          available_seats = row_available_seats r,
                          driver_rating = row_driver_rating r,
                          vehicle_info = row_vehicle r,
                          estimated_pickup_at = pickup_time,
                          estimated_arrival_at = arrival_time,
                          route_efficiency = efficiency\<rparr>))))
      | _ \<Rightarrow> None)"

text \<open>The dictionary of \<^verbatim>\<open>_match_to_dict\<close>, with its rounded numbers.\<close>

record match_dict =
  d_ride_id :: string
  d_driver_id :: string
  d_compatibility_score :: real
  d_distance_from_origin :: real
  d_distance_to_destination :: real
  d_time_deviation_hours :: real
  d_price_per_seat :: real
  d_available_seats :: int
  d_driver_rating :: real
  d_vehicle_info :: vehicle_info
  d_estimated_pickup_time :: real
  d_estimated_arrival_time :: real
  d_route_efficiency :: real

definition match_to_dict :: "ride_match \<Rightarrow> match_dict" where
  "match_to_dict m =
     \<lparr>d_ride_id = ride_id m, d_driver_id = driver_id m,
      d_compatibility_score = py_round (compatibility_score m) 3,
      d_distance_from_origin = py_round (distance_from_origin m) 2,
      d_distance_to_destination = py_round (distance_to_destination m) 2,
      d_time_deviation_hours = py_round (time_deviation m) 2,
      d_price_per_seat = price_per_seat m,
      d_available_seats = available_seats m,
      d_driver_rating = py_round (driver_rating m) 1,
      d_vehicle_info = vehicle_info m,
      d_estimated_pickup_time = estimated_pickup_at m,
      d_estimated_arrival_time = estimated_arrival_at m,
      d_route_efficiency = py_round (route_efficiency m) 3\<rparr>"

text \<open>
  The scoring loop of \<^verbatim>\<open>find_matches\<close>: the matches that were produced and whose
  score exceeds 0.3, in the order of the rides.
\<close>

definition scored_matches ::
  "geodesic \<Rightarrow> int \<Rightarrow> ride list \<Rightarrow> real \<times> real \<Rightarrow> real \<times> real \<Rightarrow> real \<Rightarrow> preferences \<Rightarrow>
   ride_match list" where
  "scored_matches geo current_year available_rides origin destination departure prefs =
     List.map_filter
       (\<lambda>r. case calculate_compatibility geo current_year r origin destination departure prefs of
              None \<Rightarrow> None
            | Some m \<Rightarrow> if 3 / 10 < compatibility_score m then Some m else None)
       available_rides"

text \<open>
  \<^verbatim>\<open>matches.sort(key=..., reverse=True)\<close> followed by \<^verbatim>\<open>matches[:20]\<close>. Python's
  sort is stable, also with \<^verbatim>\<open>reverse=True\<close>; so is the insertion sort on the
  negated key.
\<close>

definition ranked_matches :: "ride_match list \<Rightarrow> ride_match list" where
  "ranked_matches matches = take 20 (sort_key (\<lambda>m. - compatibility_score m) matches)"

text \<open>
  \<^verbatim>\<open>find_matches\<close>. The arguments \<open>cached_result\<close>, \<open>departure_dt\<close> and
  \<open>available_rides\<close> stand for what the cache, \<^verbatim>\<open>datetime.fromisoformat\<close> (\<open>None\<close>
  when it raises) and the database query return. A cached list is returned when it is
  truthy, before anything else happens; an exception is logged and raised again.
\<close>

definition find_matches ::
  "geodesic \<Rightarrow> int \<Rightarrow> match_dict list option \<Rightarrow> real option \<Rightarrow> ride list \<Rightarrow>
   real \<times> real \<Rightarrow> real \<times> real \<Rightarrow> preferences \<Rightarrow> py_error + match_dict list" where
  "find_matches geo current_year cached_result departure_dt available_rides origin destination
       prefs =
     (case cached_result of
        Some (c # cs) \<Rightarrow> Inr (c # cs)
      | _ \<Rightarrow>
          (case departure_dt of
             None \<Rightarrow> Inl (ValueError ''Invalid isoformat string'')
           | Some departure \<Rightarrow>
               if available_rides = [] then Inr []
               else Inr (map match_to_dict
                      (ranked_matches
                         (scored_matches geo current_year available_rides origin destination
                            departure prefs)))))"

text \<open>Sample rides and preferences.\<close>

definition no_preferences :: preferences where
  "no_preferences = \<lparr>max_distance = None, max_time_difference = None, max_price = None,
     seats_needed = None, vehicle_prefs = None\<rparr>"

definition sample_vehicle :: vehicle_info where
  "sample_vehicle = \<lparr>vehicle_make = ''Toyota'', model = ''Corolla'', year = 2020, color = ''white'',
     license_plate = ''B 123 ABC''\<rparr>"

text \<open>
  A ride along the passenger's own trip from \<open>(0, 0)\<close> to \<open>(0, 1/100)\<close>, leaving at the
  requested time, with a driver rated 5.
\<close>

definition same_trip_ride :: "string \<Rightarrow> ride" where
  "same_trip_ride i = \<lparr>row_ride_id = i, row_driver_id = ''driver'', origin_lat = Some 0,
     origin_lng = Some 0, destination_lat = Some 0, destination_lng = Some (1 / 100),
     departure_time = 0, row_available_seats = 1, row_price_per_seat = 10,
     row_driver_rating = 5, row_vehicle = sample_vehicle\<rparr>"

text \<open>
  A ride ten degrees of latitude away, leaving two hours after the requested time, with a
  driver rated 1.
\<close>

definition far_ride :: ride where
  "far_ride = \<lparr>row_ride_id = ''far'', row_driver_id = ''driver'', origin_lat = Some 10,
     origin_lng = Some 0, destination_lat = Some 10, destination_lng = Some (1 / 100),
     departure_time = 7200, row_available_seats = 1, row_price_per_seat = 10,
     row_driver_rating = 1, row_vehicle = sample_vehicle\<rparr>"

text \<open>
  The ride along the passenger's own trip with another driver rating, and three such rides:
  the first scores \<open>7997 / 8000\<close>, the other two score 1.
\<close>

definition rated_ride :: "string \<Rightarrow> real \<Rightarrow> ride" where
  "rated_ride i rating = (same_trip_ride i)\<lparr>row_driver_rating := rating\<rparr>"

definition three_rated :: "ride list" where
  "three_rated = [rated_ride ''A'' (499 / 100), rated_ride ''B'' 5, rated_ride ''C'' 5]"

section \<open>Well-formed inputs and the replay of a route\<close>

text \<open>
  Every waypoint is a pickup or a dropoff, and every passenger id that occurs has exactly
  one pickup and exactly one dropoff.
\<close>

definition one_pair_per_passenger :: "waypoint list \<Rightarrow> bool" where
  "one_pair_per_passenger wps \<longleftrightarrow>
     (\<forall>w \<in> set wps. wp_type w = ''pickup'' \<or> wp_type w = ''dropoff'') \<and>
     (\<forall>w \<in> set wps.
        length (filter (\<lambda>v. wp_type v = ''pickup'' \<and> passenger_id v = passenger_id w) wps) = 1 \<and>
        length (filter (\<lambda>v. wp_type v = ''dropoff'' \<and> passenger_id v = passenger_id w) wps) = 1)"

text \<open>
  Replaying a route: a passenger is in the vehicle from their pickup until their dropoff.
\<close>

definition replay_step :: "string set \<Rightarrow> waypoint \<Rightarrow> string set" where
  "replay_step in_vehicle w =
     (if wp_type w = ''pickup'' then insert (passenger_id w) in_vehicle
      else if wp_type w = ''dropoff'' then in_vehicle - {passenger_id w}
      else in_vehicle)"

definition in_vehicle_after :: "waypoint list \<Rightarrow> string set" where
  "in_vehicle_after route = foldl replay_step {} route"

text \<open>At no point of the replay are more than \<open>m\<close> passengers in the vehicle.\<close>

definition within_capacity :: "int \<Rightarrow> waypoint list \<Rightarrow> bool" where
  "within_capacity m route \<longleftrightarrow>
     (\<forall>k \<le> length route. int (card (in_vehicle_after (take k route))) \<le> m)"

text \<open>No dropoff is followed, later in the list, by a pickup of the same passenger.\<close>

fun no_pickup_after_dropoff :: "waypoint list \<Rightarrow> bool" where
  "no_pickup_after_dropoff [] \<longleftrightarrow> True"
| "no_pickup_after_dropoff (w # ws) \<longleftrightarrow>
     (wp_type w = ''dropoff'' \<longrightarrow>
        (\<forall>v \<in> set ws. \<not> (wp_type v = ''pickup'' \<and> passenger_id v = passenger_id w))) \<and>
     no_pickup_after_dropoff ws"

text \<open>The candidates of one round of the loop, as \<^const>\<open>visit_loop\<close> computes them.\<close>

definition loop_candidates ::
  "constraints \<Rightarrow> waypoint list \<Rightarrow> waypoint list \<Rightarrow> string set \<Rightarrow> waypoint list" where
  "loop_candidates cons remaining_pickups remaining_dropoffs passenger_in_car =
     (if get_max_passengers cons \<le> int (card passenger_in_car)
      then filter (\<lambda>dp. passenger_id dp \<in> passenger_in_car) remaining_dropoffs
      else remaining_pickups @
           filter (\<lambda>dp. passenger_id dp \<in> passenger_in_car) remaining_dropoffs)"

text \<open>The remaining pickups are pickups and the remaining dropoffs are dropoffs.\<close>

definition typed :: "waypoint list \<Rightarrow> waypoint list \<Rightarrow> bool" where
  "typed rp rd \<longleftrightarrow>
     (\<forall>w \<in> set rp. wp_type w = ''pickup'') \<and> (\<forall>w \<in> set rd. wp_type w = ''dropoff'')"

text \<open>Sample stops: two passengers, and a dropoff of a third who is never picked up.\<close>

definition mk_stop :: "string \<Rightarrow> string \<Rightarrow> real \<Rightarrow> real \<Rightarrow> string \<Rightarrow> waypoint" where
  "mk_stop i t la lo p = \<lparr>wp_id = i, wp_type = t, latitude = la, longitude = lo,
     address = [], passenger_id = p, estimated_time = 120, priority = 1\<rparr>"

definition pickup1 :: waypoint where "pickup1 = mk_stop ''w1'' ''pickup'' 0 0 ''p1''"
definition dropoff1 :: waypoint where "dropoff1 = mk_stop ''w2'' ''dropoff'' 0 3 ''p1''"
definition pickup2 :: waypoint where "pickup2 = mk_stop ''w3'' ''pickup'' 0 1 ''p2''"
definition dropoff2 :: waypoint where "dropoff2 = mk_stop ''w4'' ''dropoff'' 0 2 ''p2''"
definition dropoff3 :: waypoint where "dropoff3 = mk_stop ''w5'' ''dropoff'' 0 1 ''p3''"

text \<open>Two sample stops, one degree of latitude apart.\<close>

definition stop_a :: waypoint where
  "stop_a = \<lparr>wp_id = ''a'', wp_type = ''pickup'', latitude = 0, longitude = 0,
     address = [], passenger_id = ''p1'', estimated_time = 120, priority = 1\<rparr>"

definition stop_b :: waypoint where
  "stop_b = \<lparr>wp_id = ''b'', wp_type = ''dropoff'', latitude = 1, longitude = 0,
     address = [], passenger_id = ''p1'', estimated_time = 60, priority = 1\<rparr>"

text \<open>A stop at the place of \<open>stop_b\<close> whose type is neither pickup nor dropoff.\<close>

definition stop_c :: waypoint where
  "stop_c = \<lparr>wp_id = ''c'', wp_type = ''stop'', latitude = 1, longitude = 0,
     address = [], passenger_id = ''p1'', estimated_time = 60, priority = 1\<rparr>"

text \<open>The last element that satisfies \<open>P\<close>, or the default \<open>d\<close> when there is none.\<close>

definition last_match :: "('a \<Rightarrow> bool) \<Rightarrow> 'a list \<Rightarrow> 'a option \<Rightarrow> 'a option" where
  "last_match P xs d = (case filter P xs of [] \<Rightarrow> d | y # ys \<Rightarrow> Some (last (y # ys)))"

text \<open>The entry of a passenger in the grouping dictionary, \<open>(None, None)\<close> when absent.\<close>

definition entry_of :: "(string \<times> waypoint option \<times> waypoint option) list \<Rightarrow> string \<Rightarrow>
    waypoint option \<times> waypoint option" where
  "entry_of acc p = (case map_of acc p of None \<Rightarrow> (None, None) | Some e \<Rightarrow> e)"

text \<open>A route from which the dropoff of \<open>p1\<close> is missing.\<close>

definition pickup_only_route :: optimized_route where
  "pickup_only_route = \<lparr>waypoints = [pickup1], total_distance = 0, total_time = 0,
     total_cost = 0, efficiency_score = 1\<rparr>"

section \<open>Properties of the efficiency score\<close>

lemma calculate_total_distance_nonneg:
  "(\<And>p q. 0 \<le> geo p q) \<Longrightarrow> 0 \<le> calculate_total_distance geo ws"
  by (induction geo ws rule: calculate_total_distance.induct) (simp_all add: add_nonneg_nonneg)

lemma grid_km_nonneg: "0 \<le> grid_km p q"
  by (simp add: grid_km_def)

text \<open>
  C9, as stated, fails: with a single optimised stop (distance 0) and an original order of
  positive length the division raises and the score is the handler's 0.5, which is not
  \<open>min 1 (original / optimised)\<close> under any reading of the quotient. The sequencer
  produces such a pair when the input holds a waypoint that is neither a pickup nor a
  dropoff, which it leaves out of the route.
\<close>

theorem efficiency_score_zero_optimized_counterexample:
  "calculate_total_distance grid_km [stop_a, stop_b] = 1 \<and>
   calculate_total_distance grid_km [stop_a] = 0 \<and>
   calculate_efficiency_score grid_km [stop_a] [stop_a, stop_b] = 1 / 2 \<and>
   calculate_efficiency_score grid_km [stop_a] [stop_a, stop_b] \<noteq>
     min 1 (calculate_total_distance grid_km [stop_a, stop_b] /
            calculate_total_distance grid_km [stop_a]) \<and>
   waypoints (optimize_with_genetic_algorithm grid_km [stop_a, stop_c]
     \<lparr>max_passengers = None\<rparr>) = [stop_a] \<and>
   efficiency_score (optimize_with_genetic_algorithm grid_km [stop_a, stop_c]
     \<lparr>max_passengers = None\<rparr>) = 1 / 2"
  by (simp add: calculate_efficiency_score_def py_div_def grid_km_def coords_def
      stop_a_def stop_b_def stop_c_def optimize_with_genetic_algorithm_def
      sequence_waypoints_def optimize_multi_passenger_route_def multi_passenger_try_def
      visit_loop.simps Let_def)

text \<open>
  C9 (amended): for a non-negative distance function, the efficiency score is 1 when the
  original order has total distance 0; otherwise it is 0.5 when the optimised distance is 0,
  and \<open>min 1 (original / optimised)\<close> when it is not. It is 1 when the two distances
  are equal, and it always lies in \<open>[0,1]\<close>.
\<close>

theorem efficiency_score_value:
  assumes "\<forall>p q. 0 \<le> geo p q"
  shows "calculate_efficiency_score geo optimized original =
           (if calculate_total_distance geo original = 0 then 1
            else if calculate_total_distance geo optimized = 0 then 1 / 2
            else min 1 (calculate_total_distance geo original /
                        calculate_total_distance geo optimized))
         \<and> (calculate_total_distance geo original = calculate_total_distance geo optimized
              \<longrightarrow> calculate_efficiency_score geo optimized original = 1)
         \<and> 0 \<le> calculate_efficiency_score geo optimized original
         \<and> calculate_efficiency_score geo optimized original \<le> 1"
proof -
  have o: "0 \<le> calculate_total_distance geo original"
    and s: "0 \<le> calculate_total_distance geo optimized"
    by (rule calculate_total_distance_nonneg, rule assms [rule_format])+
  then have q: "0 \<le> calculate_total_distance geo original / calculate_total_distance geo optimized"
    by simp
  show ?thesis
    using o s q by (auto simp: calculate_efficiency_score_def py_div_def Let_def)
qed

theorem efficiency_score_value_witness:
  "(\<forall>p q. 0 \<le> grid_km p q) \<and>
   calculate_efficiency_score grid_km [stop_b, stop_a] [stop_a, stop_b] = 1"
  using efficiency_score_value [of grid_km "[stop_b, stop_a]" "[stop_a, stop_b]"]
  by (simp add: grid_km_def coords_def stop_a_def stop_b_def)

section \<open>Properties of the sequencer\<close>

lemma find_nearest_Some_start:
  "\<exists>r. find_nearest geo cur cs (Some b) = Some r"
  by (induction cs arbitrary: b) (auto simp: Let_def split: prod.splits)

lemma find_nearest_mem:
  "find_nearest geo cur cs best = Some (w, d) \<Longrightarrow> w \<in> set cs \<or> best = Some (w, d)"
proof (induction cs arbitrary: best)
  case Nil
  then show ?case by simp
next
  case (Cons c cs)
  from Cons.prems Cons.IH show ?case
    by (fastforce simp: Let_def split: option.splits prod.splits if_splits)
qed

lemma find_nearest_in_candidates:
  "find_nearest geo cur cs None = Some (w, d) \<Longrightarrow> w \<in> set cs"
  using find_nearest_mem [of geo cur cs None w d] by simp

lemma find_nearest_None_iff:
  "find_nearest geo cur cs None = None \<longleftrightarrow> cs = []"
proof (cases cs)
  case Nil
  then show ?thesis by simp
next
  case (Cons c rest)
  then show ?thesis
    using find_nearest_Some_start [of geo cur rest "(c, geo (coords cur) (coords c))"]
    by (auto simp: Let_def)
qed

lemma length_remove1_less:
  "x \<in> set xs \<Longrightarrow> length (remove1 x xs) < length xs"
  by (induction xs) auto

lemma visit_loop_unfold:
  "visit_loop geo cons cur rp rd car route =
     (if rp = [] \<and> rd = [] then Inr route
      else case find_nearest geo cur (loop_candidates cons rp rd car) None of
             None \<Rightarrow> Inr (route @ rp @ rd)
           | Some (nw, d) \<Rightarrow>
               if wp_type nw = ''pickup'' then
                 (case py_remove nw rp of
                    Inl e \<Rightarrow> Inl e
                  | Inr rp' \<Rightarrow> visit_loop geo cons nw rp' rd (insert (passenger_id nw) car) (route @ [nw]))
               else
                 (case py_remove nw rd of
                    Inl e \<Rightarrow> Inl e
                  | Inr rd' \<Rightarrow> visit_loop geo cons nw rp rd' (car - {passenger_id nw}) (route @ [nw])))"
  by (subst visit_loop.simps) (simp add: loop_candidates_def Let_def)

lemma visit_loop_rule:
  assumes init: "I cur rp rd car route"
    and finish: "\<And>cur car route. I cur [] [] car route \<Longrightarrow> Q (Inr route)"
    and fallback: "\<And>cur rp rd car route.
        I cur rp rd car route \<Longrightarrow> rp \<noteq> [] \<or> rd \<noteq> [] \<Longrightarrow>
        loop_candidates cons rp rd car = [] \<Longrightarrow> Q (Inr (route @ rp @ rd))"
    and pickup: "\<And>cur rp rd car route nw.
        I cur rp rd car route \<Longrightarrow> nw \<in> set (loop_candidates cons rp rd car) \<Longrightarrow>
        wp_type nw = ''pickup'' \<Longrightarrow>
        nw \<in> set rp \<and> I nw (remove1 nw rp) rd (insert (passenger_id nw) car) (route @ [nw])"
    and dropoff: "\<And>cur rp rd car route nw.
        I cur rp rd car route \<Longrightarrow> nw \<in> set (loop_candidates cons rp rd car) \<Longrightarrow>
        wp_type nw \<noteq> ''pickup'' \<Longrightarrow>
        nw \<in> set rd \<and> I nw rp (remove1 nw rd) (car - {passenger_id nw}) (route @ [nw])"
  shows "Q (visit_loop geo cons cur rp rd car route)"
  using init
proof (induction "length rp + length rd" arbitrary: cur rp rd car route rule: less_induct)
  case less
  show ?case
  proof (cases "rp = [] \<and> rd = []")
    case True
    with less.prems finish show ?thesis
      by (simp add: visit_loop_unfold)
  next
    case False
    show ?thesis
    proof (cases "find_nearest geo cur (loop_candidates cons rp rd car) None")
      case None
      then have "loop_candidates cons rp rd car = []"
        by (simp add: find_nearest_None_iff)
      with less.prems False fallback [of cur rp rd car route] None show ?thesis
        by (auto simp: visit_loop_unfold)
    next
      case (Some r)
      obtain nw d where r: "r = (nw, d)"
        by (cases r)
      with Some have cand: "nw \<in> set (loop_candidates cons rp rd car)"
        by (simp add: find_nearest_in_candidates)
      show ?thesis
      proof (cases "wp_type nw = ''pickup''")
        case True
        from pickup [OF less.prems cand True]
        have m: "nw \<in> set rp"
          and i: "I nw (remove1 nw rp) rd (insert (passenger_id nw) car) (route @ [nw])"
          by simp_all
        from m have "length (remove1 nw rp) + length rd < length rp + length rd"
          by (simp add: length_remove1_less)
        from less.hyps [OF this i] False Some r True m show ?thesis
          by (auto simp: visit_loop_unfold py_remove_def)
      next
        case notp: False
        from dropoff [OF less.prems cand notp]
        have m: "nw \<in> set rd"
          and i: "I nw rp (remove1 nw rd) (car - {passenger_id nw}) (route @ [nw])"
          by simp_all
        from m have "length rp + length (remove1 nw rd) < length rp + length rd"
          by (simp add: length_remove1_less)
        from less.hyps [OF this i] False Some r notp m show ?thesis
          by (auto simp: visit_loop_unfold py_remove_def)
      qed
    qed
  qed
qed


subsection \<open>Candidates\<close>

lemma typed_remove1:
  "typed rp rd \<Longrightarrow> typed (remove1 w rp) rd"
  "typed rp rd \<Longrightarrow> typed rp (remove1 w rd)"
  by (auto simp: typed_def dest: notin_set_remove1)

lemma candidate_pickup:
  assumes "typed rp rd" and "nw \<in> set (loop_candidates cons rp rd car)"
    and "wp_type nw = ''pickup''"
  shows "nw \<in> set rp" and "int (card car) < get_max_passengers cons"
  using assms by (auto simp: typed_def loop_candidates_def split: if_splits)

lemma candidate_dropoff:
  assumes "typed rp rd" and "nw \<in> set (loop_candidates cons rp rd car)"
    and "wp_type nw \<noteq> ''pickup''"
  shows "nw \<in> set rd" and "passenger_id nw \<in> car"
  using assms by (auto simp: typed_def loop_candidates_def split: if_splits)

subsection \<open>The route is a permutation\<close>

lemma mset_move:
  assumes "x \<in> set xs"
  shows "mset (ys @ [x]) + mset (remove1 x xs) + zs = mset ys + mset xs + zs"
proof -
  from assms have "add_mset x (mset xs - {#x#}) = mset xs"
    by (simp add: insert_DiffM)
  then have "mset ys + add_mset x (mset xs - {#x#}) = mset ys + mset xs"
    by simp
  then show ?thesis
    by simp
qed

lemma visit_loop_mset:
  assumes "typed rp rd"
  shows "\<exists>out. visit_loop geo cons cur rp rd car route = Inr out \<and>
           mset out = mset route + mset rp + mset rd"
proof -
  define M where "M = mset route + mset rp + mset rd"
  define I where "I = (\<lambda>(cur::waypoint) rp rd (car::string set) route.
      typed rp rd \<and> mset route + mset rp + mset rd = M)"
  define Q where "Q = (\<lambda>r :: py_error + waypoint list. \<exists>out. r = Inr out \<and> mset out = M)"
  have "Q (visit_loop geo cons cur rp rd car route)"
  proof (rule visit_loop_rule [where I = I and Q = Q])
    show "I cur rp rd car route"
      using assms by (simp add: I_def M_def)
  next
    fix cur car route assume "I cur [] [] car route"
    then show "Q (Inr route)" by (simp add: I_def Q_def)
  next
    fix cur rp rd car route assume "I cur rp rd car route"
    then show "Q (Inr (route @ rp @ rd))" by (simp add: I_def Q_def add.assoc)
  next
    fix cur rp rd car route nw
    assume i: "I cur rp rd car route" and c: "nw \<in> set (loop_candidates cons rp rd car)"
      and t: "wp_type nw = ''pickup''"
    from i have ty: "typed rp rd" by (simp add: I_def)
    from candidate_pickup(1) [OF ty c t] have m: "nw \<in> set rp" .
    from i have "mset route + mset rp + mset rd = M" by (simp add: I_def)
    with mset_move [OF m, of route "mset rd"]
    have "mset (route @ [nw]) + mset (remove1 nw rp) + mset rd = M" by (simp only:)
    with m typed_remove1(1) [OF ty]
    show "nw \<in> set rp \<and> I nw (remove1 nw rp) rd (insert (passenger_id nw) car) (route @ [nw])"
      unfolding I_def by blast
  next
    fix cur rp rd car route nw
    assume i: "I cur rp rd car route" and c: "nw \<in> set (loop_candidates cons rp rd car)"
      and t: "wp_type nw \<noteq> ''pickup''"
    from i have ty: "typed rp rd" by (simp add: I_def)
    from candidate_dropoff(1) [OF ty c t] have m: "nw \<in> set rd" .
    from i have "mset route + mset rd + mset rp = M" by (simp add: I_def add.commute add.left_commute)
    with mset_move [OF m, of route "mset rp"]
    have "mset (route @ [nw]) + mset (remove1 nw rd) + mset rp = M" by (simp only:)
    then have "mset (route @ [nw]) + mset rp + mset (remove1 nw rd) = M"
      by (simp only: add.assoc add.commute [of "mset rp"])
    with m typed_remove1(2) [OF ty]
    show "nw \<in> set rd \<and> I nw rp (remove1 nw rd) (car - {passenger_id nw}) (route @ [nw])"
      unfolding I_def by blast
  qed
  then show ?thesis by (simp add: Q_def M_def)
qed


subsection \<open>Pickups come before dropoffs\<close>

lemma no_pickup_after_dropoff_append:
  "no_pickup_after_dropoff (xs @ ys) \<longleftrightarrow>
     no_pickup_after_dropoff xs \<and> no_pickup_after_dropoff ys \<and>
     (\<forall>d \<in> set xs. wp_type d = ''dropoff'' \<longrightarrow>
        (\<forall>v \<in> set ys. \<not> (wp_type v = ''pickup'' \<and> passenger_id v = passenger_id d)))"
  by (induction xs) auto

lemma no_pickup_after_dropoff_pickups:
  "\<forall>w \<in> set xs. wp_type w = ''pickup'' \<Longrightarrow> no_pickup_after_dropoff xs"
  by (induction xs) auto

lemma no_pickup_after_dropoff_dropoffs:
  "\<forall>w \<in> set xs. wp_type w = ''dropoff'' \<Longrightarrow> no_pickup_after_dropoff xs"
  by (induction xs) auto

lemma no_pickup_after_dropoff_nth:
  assumes "no_pickup_after_dropoff xs" and "j < i" and "i < length xs"
    and "wp_type (xs ! j) = ''dropoff''" and "wp_type (xs ! i) = ''pickup''"
  shows "passenger_id (xs ! i) \<noteq> passenger_id (xs ! j)"
  using assms
proof (induction xs arbitrary: i j)
  case Nil
  then show ?case by simp
next
  case (Cons x xs)
  obtain i' where i: "i = Suc i'"
    using Cons.prems(2) by (cases i) auto
  show ?case
  proof (cases j)
    case 0
    from Cons.prems(3) i have "xs ! i' \<in> set xs" by simp
    with Cons.prems(1,4,5) 0 i show ?thesis by auto
  next
    case (Suc j')
    with Cons.prems i Cons.IH [of j' i'] show ?thesis by simp
  qed
qed

lemma remove1_fresh:
  assumes "distinct (map f xs)" and "x \<in> set xs"
  shows "f x \<notin> f ` set (remove1 x xs)"
  using assms
proof (induction xs)
  case Nil
  then show ?case by simp
next
  case (Cons a xs)
  show ?case
  proof (cases "x = a")
    case True
    with Cons.prems show ?thesis by simp
  next
    case False
    with Cons.prems have x: "x \<in> set xs" and a: "f a \<notin> f ` set xs" and d: "distinct (map f xs)"
      by simp_all
    from x a have "f x \<noteq> f a" by (metis imageI)
    with False Cons.IH [OF d x] show ?thesis by simp
  qed
qed

lemma distinct_map_remove1_keep:
  "distinct (map f xs) \<Longrightarrow> distinct (map f (remove1 x xs))"
proof (induction xs)
  case Nil
  then show ?case by simp
next
  case (Cons a xs)
  have "f ` set (remove1 x xs) \<subseteq> f ` set xs"
    by (rule image_mono) (rule set_remove1_subset)
  with Cons show ?case by auto
qed

lemma visit_loop_order:
  assumes "typed rp rd" and "distinct (map passenger_id rp)"
    and "car \<inter> passenger_id ` set rp = {}"
    and "\<forall>d \<in> set route. wp_type d = ''dropoff'' \<longrightarrow> passenger_id d \<notin> passenger_id ` set rp"
    and "no_pickup_after_dropoff route"
  shows "\<exists>out. visit_loop geo cons cur rp rd car route = Inr out \<and> no_pickup_after_dropoff out"
proof -
  define I where "I = (\<lambda>(cur::waypoint) rp rd (car::string set) route.
      typed rp rd \<and> distinct (map passenger_id rp) \<and> car \<inter> passenger_id ` set rp = {} \<and>
      (\<forall>d \<in> set route. wp_type d = ''dropoff'' \<longrightarrow> passenger_id d \<notin> passenger_id ` set rp) \<and>
      no_pickup_after_dropoff route)"
  define Q where "Q = (\<lambda>r :: py_error + waypoint list.
      \<exists>out. r = Inr out \<and> no_pickup_after_dropoff out)"
  have "Q (visit_loop geo cons cur rp rd car route)"
  proof (rule visit_loop_rule [where I = I and Q = Q])
    show "I cur rp rd car route"
      using assms by (simp add: I_def)
  next
    fix cur car route assume "I cur [] [] car route"
    then show "Q (Inr route)" by (simp add: I_def Q_def)
  next
    fix cur rp rd car route assume i: "I cur rp rd car route"
    then have ty: "typed rp rd" by (simp add: I_def)
    then have "no_pickup_after_dropoff rp" "no_pickup_after_dropoff rd"
      by (simp_all add: typed_def no_pickup_after_dropoff_pickups no_pickup_after_dropoff_dropoffs)
    moreover from ty have "\<forall>d \<in> set rp. wp_type d \<noteq> ''dropoff''"
      and "\<forall>d \<in> set rd. wp_type d \<noteq> ''pickup''"
      by (auto simp: typed_def)
    moreover from i have "no_pickup_after_dropoff route"
      and "\<forall>d \<in> set route. wp_type d = ''dropoff'' \<longrightarrow> passenger_id d \<notin> passenger_id ` set rp"
      by (simp_all add: I_def)
    ultimately have "no_pickup_after_dropoff (route @ rp @ rd)"
      unfolding no_pickup_after_dropoff_append by (auto simp: image_iff) metis
    then show "Q (Inr (route @ rp @ rd))" by (simp add: Q_def)
  next
    fix cur rp rd car route nw
    assume i: "I cur rp rd car route" and c: "nw \<in> set (loop_candidates cons rp rd car)"
      and t: "wp_type nw = ''pickup''"
    from i have ty: "typed rp rd" by (simp add: I_def)
    from candidate_pickup(1) [OF ty c t] have m: "nw \<in> set rp" .
    from i have d: "distinct (map passenger_id rp)" by (simp add: I_def)
    from d m have fresh: "passenger_id nw \<notin> passenger_id ` set (remove1 nw rp)"
      by (rule remove1_fresh)
    have sub: "set (remove1 nw rp) \<subseteq> set rp"
      by (rule set_remove1_subset)
    have 1: "typed (remove1 nw rp) rd" by (rule typed_remove1(1) [OF ty])
    have 2: "distinct (map passenger_id (remove1 nw rp))"
      using d by (rule distinct_map_remove1_keep)
    have 3: "insert (passenger_id nw) car \<inter> passenger_id ` set (remove1 nw rp) = {}"
      using i fresh sub by (auto simp: I_def)
    have 4: "\<forall>d \<in> set (route @ [nw]). wp_type d = ''dropoff'' \<longrightarrow>
        passenger_id d \<notin> passenger_id ` set (remove1 nw rp)"
      using i t sub by (auto simp: I_def)
    have 5: "no_pickup_after_dropoff (route @ [nw])"
      using i m by (auto simp: I_def no_pickup_after_dropoff_append) (metis imageI)
    from m 1 2 3 4 5
    show "nw \<in> set rp \<and> I nw (remove1 nw rp) rd (insert (passenger_id nw) car) (route @ [nw])"
      unfolding I_def by blast
  next
    fix cur rp rd car route nw
    assume i: "I cur rp rd car route" and c: "nw \<in> set (loop_candidates cons rp rd car)"
      and t: "wp_type nw \<noteq> ''pickup''"
    from i have ty: "typed rp rd" by (simp add: I_def)
    from candidate_dropoff [OF ty c t] have m: "nw \<in> set rd" and a: "passenger_id nw \<in> car"
      by simp_all
    have 1: "typed rp (remove1 nw rd)" by (rule typed_remove1(2) [OF ty])
    have 2: "distinct (map passenger_id rp)" using i by (simp add: I_def)
    have 3: "(car - {passenger_id nw}) \<inter> passenger_id ` set rp = {}"
      using i by (auto simp: I_def)
    have 4: "\<forall>d \<in> set (route @ [nw]). wp_type d = ''dropoff'' \<longrightarrow>
        passenger_id d \<notin> passenger_id ` set rp"
      using i a by (auto simp: I_def)
    have 5: "no_pickup_after_dropoff (route @ [nw])"
      using i t by (auto simp: I_def no_pickup_after_dropoff_append)
    from m 1 2 3 4 5
    show "nw \<in> set rd \<and> I nw rp (remove1 nw rd) (car - {passenger_id nw}) (route @ [nw])"
      unfolding I_def by blast
  qed
  then show ?thesis by (simp add: Q_def)
qed


subsection \<open>Capacity\<close>

lemma in_vehicle_after_snoc:
  "in_vehicle_after (route @ [w]) = replay_step (in_vehicle_after route) w"
  by (simp add: in_vehicle_after_def)

lemma in_vehicle_after_append:
  "in_vehicle_after (xs @ ys) = foldl replay_step (in_vehicle_after xs) ys"
  by (simp add: in_vehicle_after_def)

lemma replay_dropoffs_subset:
  "\<forall>w \<in> set ds. wp_type w = ''dropoff'' \<Longrightarrow> foldl replay_step s ds \<subseteq> s"
proof (induction ds arbitrary: s)
  case Nil
  then show ?case by simp
next
  case (Cons d ds)
  then have "foldl replay_step (replay_step s d) ds \<subseteq> replay_step s d"
    by simp
  also from Cons.prems have "replay_step s d \<subseteq> s"
    by (auto simp: replay_step_def)
  finally show ?case by simp
qed

lemma finite_replay: "finite s \<Longrightarrow> finite (foldl replay_step s ws)"
  by (induction ws arbitrary: s) (simp_all add: replay_step_def)

lemma finite_in_vehicle_after: "finite (in_vehicle_after ws)"
  by (simp add: in_vehicle_after_def finite_replay)

lemma within_capacity_snoc:
  assumes "within_capacity m route"
    and "int (card (replay_step (in_vehicle_after route) w)) \<le> m"
  shows "within_capacity m (route @ [w])"
  unfolding within_capacity_def
proof (intro allI impI)
  fix k assume k: "k \<le> length (route @ [w])"
  show "int (card (in_vehicle_after (take k (route @ [w])))) \<le> m"
  proof (cases "k \<le> length route")
    case True
    with assms(1) show ?thesis by (simp add: within_capacity_def)
  next
    case False
    with k have "take k (route @ [w]) = route @ [w]" by simp
    with assms(2) show ?thesis by (simp add: in_vehicle_after_snoc)
  qed
qed

lemma within_capacity_dropoffs:
  assumes "within_capacity m route" and "\<forall>w \<in> set ds. wp_type w = ''dropoff''"
  shows "within_capacity m (route @ ds)"
  unfolding within_capacity_def
proof (intro allI impI)
  fix k assume k: "k \<le> length (route @ ds)"
  show "int (card (in_vehicle_after (take k (route @ ds)))) \<le> m"
  proof (cases "k \<le> length route")
    case True
    with assms(1) show ?thesis by (simp add: within_capacity_def)
  next
    case False
    then have t: "take k (route @ ds) = route @ take (k - length route) ds" by simp
    from assms(2) have "\<forall>w \<in> set (take (k - length route) ds). wp_type w = ''dropoff''"
      by (auto dest: in_set_takeD)
    then have "foldl replay_step (in_vehicle_after route) (take (k - length route) ds)
        \<subseteq> in_vehicle_after route"
      by (rule replay_dropoffs_subset)
    then have "card (in_vehicle_after (take k (route @ ds))) \<le> card (in_vehicle_after route)"
      unfolding t in_vehicle_after_append by (rule card_mono [OF finite_in_vehicle_after])
    moreover from assms(1) have "int (card (in_vehicle_after route)) \<le> m"
      by (auto simp: within_capacity_def dest: spec [where x = "length route"])
    ultimately show ?thesis by linarith
  qed
qed

lemma visit_loop_capacity:
  assumes mp: "1 \<le> get_max_passengers cons"
    and "typed rp rd" and "car = in_vehicle_after route"
    and "within_capacity (get_max_passengers cons) route"
    and "distinct (map passenger_id rp)"
    and "car \<inter> passenger_id ` set rp = {}"
    and "\<forall>p \<in> car. \<exists>d \<in> set rd. passenger_id d = p"
    and "\<forall>w \<in> set rp. \<exists>d \<in> set rd. passenger_id d = passenger_id w"
  shows "\<exists>out. visit_loop geo cons cur rp rd car route = Inr out \<and>
           within_capacity (get_max_passengers cons) out"
proof -
  define m where "m = get_max_passengers cons"
  define I where "I = (\<lambda>(cur::waypoint) rp rd (car::string set) route.
      typed rp rd \<and> car = in_vehicle_after route \<and> within_capacity m route \<and>
      distinct (map passenger_id rp) \<and> car \<inter> passenger_id ` set rp = {} \<and>
      (\<forall>p \<in> car. \<exists>d \<in> set rd. passenger_id d = p) \<and>
      (\<forall>w \<in> set rp. \<exists>d \<in> set rd. passenger_id d = passenger_id w))"
  define Q where "Q = (\<lambda>r :: py_error + waypoint list.
      \<exists>out. r = Inr out \<and> within_capacity m out)"
  have "Q (visit_loop geo cons cur rp rd car route)"
  proof (rule visit_loop_rule [where I = I and Q = Q])
    show "I cur rp rd car route"
      using assms by (simp add: I_def m_def)
  next
    fix cur car route assume "I cur [] [] car route"
    then show "Q (Inr route)" by (simp add: I_def Q_def)
  next
    fix cur rp rd car route
    assume i: "I cur rp rd car route" and e: "loop_candidates cons rp rd car = []"
    from i have ty: "typed rp rd" and cap: "within_capacity m route"
      and car: "car = in_vehicle_after route"
      and inside: "\<forall>p \<in> car. \<exists>d \<in> set rd. passenger_id d = p"
      unfolding I_def by blast+
    have "rp = []"
    proof (cases "m \<le> int (card car)")
      case True
      with mp have "car \<noteq> {}" by (auto simp: m_def)
      then obtain p where "p \<in> car" by auto
      with inside obtain d where "d \<in> set rd" and "passenger_id d \<in> car" by auto
      then have "filter (\<lambda>dp. passenger_id dp \<in> car) rd \<noteq> []"
        by (auto simp: filter_empty_conv)
      with e True show ?thesis
        by (simp add: loop_candidates_def m_def)
    next
      case False
      with e show ?thesis by (simp add: loop_candidates_def m_def)
    qed
    moreover from ty have "\<forall>w \<in> set rd. wp_type w = ''dropoff''" by (simp add: typed_def)
    with cap have "within_capacity m (route @ rd)" by (rule within_capacity_dropoffs)
    ultimately show "Q (Inr (route @ rp @ rd))" by (simp add: Q_def)
  next
    fix cur rp rd car route nw
    assume i: "I cur rp rd car route" and c: "nw \<in> set (loop_candidates cons rp rd car)"
      and t: "wp_type nw = ''pickup''"
    from i have ty: "typed rp rd" and cap: "within_capacity m route"
      and car: "car = in_vehicle_after route"
      and d: "distinct (map passenger_id rp)"
      and k: "car \<inter> passenger_id ` set rp = {}"
      and inside: "\<forall>p \<in> car. \<exists>d \<in> set rd. passenger_id d = p"
      and waiting: "\<forall>w \<in> set rp. \<exists>d \<in> set rd. passenger_id d = passenger_id w"
      unfolding I_def by blast+
    from candidate_pickup [OF ty c t] have mem: "nw \<in> set rp" and room: "int (card car) < m"
      by (simp_all add: m_def)
    have fin: "finite car" by (simp add: car finite_in_vehicle_after)
    have sub: "set (remove1 nw rp) \<subseteq> set rp" by (rule set_remove1_subset)
    have step: "replay_step (in_vehicle_after route) nw = insert (passenger_id nw) car"
      using t by (simp add: replay_step_def car)
    have "card (insert (passenger_id nw) car) \<le> Suc (card car)"
      using fin by (simp add: card_insert_if)
    with room have "int (card (insert (passenger_id nw) car)) \<le> m" by linarith
    with cap have 3: "within_capacity m (route @ [nw])"
      by (intro within_capacity_snoc) (simp_all add: step)
    have 1: "typed (remove1 nw rp) rd" by (rule typed_remove1(1) [OF ty])
    have 2: "insert (passenger_id nw) car = in_vehicle_after (route @ [nw])"
      by (simp add: in_vehicle_after_snoc step)
    have 4: "distinct (map passenger_id (remove1 nw rp))"
      using d by (rule distinct_map_remove1_keep)
    from d mem have fresh: "passenger_id nw \<notin> passenger_id ` set (remove1 nw rp)"
      by (rule remove1_fresh)
    have 5: "insert (passenger_id nw) car \<inter> passenger_id ` set (remove1 nw rp) = {}"
      using k fresh sub by auto
    have 6: "\<forall>p \<in> insert (passenger_id nw) car. \<exists>d \<in> set rd. passenger_id d = p"
      using inside waiting mem by auto
    have 7: "\<forall>w \<in> set (remove1 nw rp). \<exists>d \<in> set rd. passenger_id d = passenger_id w"
      using waiting sub by auto
    from mem 1 2 3 4 5 6 7
    show "nw \<in> set rp \<and> I nw (remove1 nw rp) rd (insert (passenger_id nw) car) (route @ [nw])"
      unfolding I_def by blast
  next
    fix cur rp rd car route nw
    assume i: "I cur rp rd car route" and c: "nw \<in> set (loop_candidates cons rp rd car)"
      and t: "wp_type nw \<noteq> ''pickup''"
    from i have ty: "typed rp rd" and cap: "within_capacity m route"
      and car: "car = in_vehicle_after route"
      and d: "distinct (map passenger_id rp)"
      and k: "car \<inter> passenger_id ` set rp = {}"
      and inside: "\<forall>p \<in> car. \<exists>d \<in> set rd. passenger_id d = p"
      and waiting: "\<forall>w \<in> set rp. \<exists>d \<in> set rd. passenger_id d = passenger_id w"
      unfolding I_def by blast+
    from candidate_dropoff [OF ty c t] have mem: "nw \<in> set rd" and a: "passenger_id nw \<in> car"
      by simp_all
    from ty mem have t': "wp_type nw = ''dropoff''" by (simp add: typed_def)
    have fin: "finite car" by (simp add: car finite_in_vehicle_after)
    have step: "replay_step (in_vehicle_after route) nw = car - {passenger_id nw}"
      using t t' by (simp add: replay_step_def car)
    from cap have "int (card car) \<le> m"
      by (auto simp: within_capacity_def car dest: spec [where x = "length route"])
    moreover have "card (car - {passenger_id nw}) \<le> card car"
      using fin by (intro card_mono) auto
    ultimately have "int (card (car - {passenger_id nw})) \<le> m" by linarith
    with cap have 3: "within_capacity m (route @ [nw])"
      by (intro within_capacity_snoc) (simp_all add: step)
    have 1: "typed rp (remove1 nw rd)" by (rule typed_remove1(2) [OF ty])
    have 2: "car - {passenger_id nw} = in_vehicle_after (route @ [nw])"
      by (simp add: in_vehicle_after_snoc step)
    have 5: "(car - {passenger_id nw}) \<inter> passenger_id ` set rp = {}"
      using k by auto
    have 6: "\<forall>p \<in> car - {passenger_id nw}. \<exists>d \<in> set (remove1 nw rd). passenger_id d = p"
    proof
      fix p assume p: "p \<in> car - {passenger_id nw}"
      with inside obtain d where "d \<in> set rd" and "passenger_id d = p" by auto
      moreover with p have "d \<noteq> nw" by auto
      ultimately show "\<exists>d \<in> set (remove1 nw rd). passenger_id d = p"
        by (auto simp: in_set_remove1)
    qed
    have 7: "\<forall>w \<in> set rp. \<exists>d \<in> set (remove1 nw rd). passenger_id d = passenger_id w"
    proof
      fix w assume w: "w \<in> set rp"
      with waiting obtain d where "d \<in> set rd" and "passenger_id d = passenger_id w" by auto
      moreover from w k have "passenger_id w \<notin> car" by auto
      with a calculation have "d \<noteq> nw" by auto
      ultimately show "\<exists>d \<in> set (remove1 nw rd). passenger_id d = passenger_id w"
        by (auto simp: in_set_remove1)
    qed
    from mem 1 2 3 d 5 6 7
    show "nw \<in> set rd \<and> I nw rp (remove1 nw rd) (car - {passenger_id nw}) (route @ [nw])"
      unfolding I_def by blast
  qed
  then show ?thesis by (simp add: Q_def m_def)
qed


subsection \<open>From the loop to the sequencer\<close>

lemma within_capacity_Nil: "0 \<le> m \<Longrightarrow> within_capacity m []"
  by (simp add: within_capacity_def in_vehicle_after_def)

lemma within_capacity_first_pickup:
  assumes "1 \<le> m" and "wp_type p = ''pickup''"
  shows "within_capacity m [p]"
  using assms within_capacity_snoc [of m "[]" p]
  by (simp add: within_capacity_Nil in_vehicle_after_def replay_step_def)

lemma in_vehicle_after_first_pickup:
  "wp_type p = ''pickup'' \<Longrightarrow> in_vehicle_after [p] = {passenger_id p}"
  by (simp add: in_vehicle_after_def replay_step_def)

lemma multi_passenger_mset:
  assumes "typed ps ds"
  shows "mset (optimize_multi_passenger_route geo ps ds cons) = mset ps + mset ds"
proof (cases ps)
  case (Cons p rest)
  from assms Cons have "typed rest ds" by (simp add: typed_def)
  from visit_loop_mset [OF this, of geo cons p "{passenger_id p}" "[p]"] Cons
  show ?thesis
    by (auto simp: optimize_multi_passenger_route_def multi_passenger_try_def)
next
  case Nil
  show ?thesis
  proof (cases ds)
    case ds: Nil
    with Nil show ?thesis
      by (simp add: optimize_multi_passenger_route_def multi_passenger_try_def)
  next
    case ds: (Cons d rest)
    from assms Nil have "typed [] ds" by simp
    from visit_loop_mset [OF this, of geo cons d "{}" "[]"] Nil ds
    show ?thesis
      by (auto simp: optimize_multi_passenger_route_def multi_passenger_try_def)
  qed
qed

lemma multi_passenger_order:
  assumes "typed ps ds" and "distinct (map passenger_id ps)"
  shows "no_pickup_after_dropoff (optimize_multi_passenger_route geo ps ds cons)"
proof (cases ps)
  case (Cons p rest)
  from assms Cons have 1: "typed rest ds" and 2: "distinct (map passenger_id rest)"
    and 3: "{passenger_id p} \<inter> passenger_id ` set rest = {}"
    and 4: "\<forall>d \<in> set [p]. wp_type d = ''dropoff'' \<longrightarrow> passenger_id d \<notin> passenger_id ` set rest"
    and 5: "no_pickup_after_dropoff [p]"
    by (auto simp: typed_def)
  from visit_loop_order [OF 1 2 3 4 5, of geo cons p] Cons show ?thesis
    by (auto simp: optimize_multi_passenger_route_def multi_passenger_try_def)
next
  case Nil
  show ?thesis
  proof (cases ds)
    case ds: Nil
    with Nil show ?thesis
      by (simp add: optimize_multi_passenger_route_def multi_passenger_try_def)
  next
    case ds: (Cons d rest)
    from assms Nil have "typed [] ds" by simp
    from visit_loop_order [OF this, of "{}" "[]" geo cons d] Nil ds show ?thesis
      by (auto simp: optimize_multi_passenger_route_def multi_passenger_try_def)
  qed
qed

lemma multi_passenger_capacity:
  assumes mp: "1 \<le> get_max_passengers cons"
    and ty: "typed ps ds" and d: "distinct (map passenger_id ps)"
    and pairs: "\<forall>w \<in> set ps. \<exists>d \<in> set ds. passenger_id d = passenger_id w"
  shows "within_capacity (get_max_passengers cons) (optimize_multi_passenger_route geo ps ds cons)"
proof (cases ps)
  case (Cons p rest)
  from ty Cons have p: "wp_type p = ''pickup''" by (simp add: typed_def)
  from ty Cons have 1: "typed rest ds" by (simp add: typed_def)
  have 2: "{passenger_id p} = in_vehicle_after [p]"
    using p by (simp add: in_vehicle_after_first_pickup)
  have 3: "within_capacity (get_max_passengers cons) [p]"
    using mp p by (rule within_capacity_first_pickup)
  from d Cons have 4: "distinct (map passenger_id rest)"
    and 5: "{passenger_id p} \<inter> passenger_id ` set rest = {}"
    by auto
  from pairs Cons have 6: "\<forall>q \<in> {passenger_id p}. \<exists>d \<in> set ds. passenger_id d = q"
    and 7: "\<forall>w \<in> set rest. \<exists>d \<in> set ds. passenger_id d = passenger_id w"
    by auto
  from visit_loop_capacity [OF mp 1 2 3 4 5 6 7, of geo p] Cons show ?thesis
    by (auto simp: optimize_multi_passenger_route_def multi_passenger_try_def)
next
  case Nil
  from mp have 0: "within_capacity (get_max_passengers cons) []"
    by (simp add: within_capacity_Nil)
  show ?thesis
  proof (cases ds)
    case ds: Nil
    with Nil 0 show ?thesis
      by (simp add: optimize_multi_passenger_route_def multi_passenger_try_def)
  next
    case ds: (Cons d rest)
    from ty Nil have 1: "typed [] ds" by simp
    have 2: "{} = in_vehicle_after []" by (simp add: in_vehicle_after_def)
    from visit_loop_capacity [OF mp 1 2 0, of geo d] Nil ds show ?thesis
      by (auto simp: optimize_multi_passenger_route_def multi_passenger_try_def)
  qed
qed

subsection \<open>What one pair per passenger gives\<close>

lemma typed_filters:
  "typed (filter (\<lambda>wp. wp_type wp = ''pickup'') wps) (filter (\<lambda>wp. wp_type wp = ''dropoff'') wps)"
  by (simp add: typed_def)

lemma distinct_map_if_single:
  assumes "\<forall>x \<in> set xs. length (filter (\<lambda>v. f v = f x) xs) \<le> 1"
  shows "distinct (map f xs)"
  using assms
proof (induction xs)
  case Nil
  then show ?case by simp
next
  case (Cons a xs)
  from Cons.prems have "length (filter (\<lambda>v. f v = f a) (a # xs)) \<le> 1" by simp
  then have "filter (\<lambda>v. f v = f a) xs = []" by simp
  then have fresh: "f a \<notin> f ` set xs"
    by (auto simp: filter_empty_conv)
  have "\<forall>x \<in> set xs. length (filter (\<lambda>v. f v = f x) xs) \<le> 1"
  proof
    fix x assume "x \<in> set xs"
    with Cons.prems have "length (filter (\<lambda>v. f v = f x) (a # xs)) \<le> 1" by simp
    then show "length (filter (\<lambda>v. f v = f x) xs) \<le> 1"
      by (simp split: if_splits)
  qed
  with Cons.IH fresh show ?case by simp
qed

lemma pairs_distinct_pickups:
  assumes "one_pair_per_passenger wps"
  shows "distinct (map passenger_id (filter (\<lambda>wp. wp_type wp = ''pickup'') wps))"
proof (rule distinct_map_if_single, rule ballI)
  fix x assume "x \<in> set (filter (\<lambda>wp. wp_type wp = ''pickup'') wps)"
  then have "x \<in> set wps" by simp
  with assms
  have "length (filter (\<lambda>v. wp_type v = ''pickup'' \<and> passenger_id v = passenger_id x) wps) = 1"
    by (simp add: one_pair_per_passenger_def)
  then show "length (filter (\<lambda>v. passenger_id v = passenger_id x)
      (filter (\<lambda>wp. wp_type wp = ''pickup'') wps)) \<le> 1"
    by simp
qed

lemma pairs_dropoff_exists:
  assumes "one_pair_per_passenger wps"
  shows "\<forall>w \<in> set (filter (\<lambda>wp. wp_type wp = ''pickup'') wps).
     \<exists>d \<in> set (filter (\<lambda>wp. wp_type wp = ''dropoff'') wps). passenger_id d = passenger_id w"
proof
  fix w assume "w \<in> set (filter (\<lambda>wp. wp_type wp = ''pickup'') wps)"
  then have "w \<in> set wps" by simp
  with assms
  have "length (filter (\<lambda>v. wp_type v = ''dropoff'' \<and> passenger_id v = passenger_id w) wps) = 1"
    by (simp add: one_pair_per_passenger_def)
  then have "filter (\<lambda>v. wp_type v = ''dropoff'' \<and> passenger_id v = passenger_id w) wps \<noteq> []"
    by auto
  then show "\<exists>d \<in> set (filter (\<lambda>wp. wp_type wp = ''dropoff'') wps). passenger_id d = passenger_id w"
    by (auto simp: filter_empty_conv)
qed

lemma pairs_partition:
  assumes "one_pair_per_passenger wps"
  shows "mset (filter (\<lambda>wp. wp_type wp = ''pickup'') wps) +
         mset (filter (\<lambda>wp. wp_type wp = ''dropoff'') wps) = mset wps"
proof -
  from assms have "\<forall>w \<in> set wps. wp_type w = ''pickup'' \<or> wp_type w = ''dropoff''"
    by (simp add: one_pair_per_passenger_def)
  then have "filter (\<lambda>wp. wp_type wp = ''dropoff'') wps = filter (\<lambda>wp. wp_type wp \<noteq> ''pickup'') wps"
    by (intro filter_cong) auto
  then show ?thesis
    by simp
qed

subsection \<open>The sequencer\<close>

lemma waypoints_genetic:
  "waypoints (optimize_with_genetic_algorithm geo wps cons) = sequence_waypoints geo wps cons"
  by (simp add: optimize_with_genetic_algorithm_def Let_def)

lemma sequence_waypoints_mset:
  assumes "one_pair_per_passenger wps"
  shows "mset (sequence_waypoints geo wps cons) = mset wps"
  using pairs_partition [OF assms] multi_passenger_mset [OF typed_filters, where geo = geo and cons = cons and wps1 = wps]
  by (simp add: sequence_waypoints_def Let_def)

lemma sequence_waypoints_order:
  assumes "one_pair_per_passenger wps"
  shows "no_pickup_after_dropoff (sequence_waypoints geo wps cons)"
proof -
  have "no_pickup_after_dropoff (filter (\<lambda>wp. wp_type wp = ''pickup'') wps @
      filter (\<lambda>wp. wp_type wp = ''dropoff'') wps)"
    by (auto simp: no_pickup_after_dropoff_append no_pickup_after_dropoff_pickups
        no_pickup_after_dropoff_dropoffs)
  with multi_passenger_order [OF typed_filters pairs_distinct_pickups [OF assms], where geo = geo and cons = cons]
  show ?thesis
    by (simp add: sequence_waypoints_def Let_def)
qed

lemma sequence_waypoints_capacity:
  assumes "1 \<le> get_max_passengers cons" and "one_pair_per_passenger wps"
  shows "within_capacity (get_max_passengers cons) (sequence_waypoints geo wps cons)"
proof (cases "length (filter (\<lambda>wp. wp_type wp = ''pickup'') wps) = 1 \<and>
    length (filter (\<lambda>wp. wp_type wp = ''dropoff'') wps) = 1")
  case True
  then obtain p where p: "filter (\<lambda>wp. wp_type wp = ''pickup'') wps = [p]"
    by (auto simp: length_Suc_conv)
  then have "p \<in> set (filter (\<lambda>wp. wp_type wp = ''pickup'') wps)" by simp
  then have "wp_type p = ''pickup''" by simp
  with assms(1) have "within_capacity (get_max_passengers cons) [p]"
    by (rule within_capacity_first_pickup)
  then have "within_capacity (get_max_passengers cons)
      ([p] @ filter (\<lambda>wp. wp_type wp = ''dropoff'') wps)"
    by (rule within_capacity_dropoffs) simp
  with True p show ?thesis
    by (simp add: sequence_waypoints_def Let_def)
next
  case False
  with multi_passenger_capacity [OF assms(1) typed_filters
      pairs_distinct_pickups [OF assms(2)] pairs_dropoff_exists [OF assms(2)], where geo = geo]
  show ?thesis
    by (auto simp: sequence_waypoints_def Let_def)
qed

text \<open>
  C2: for every waypoint list (of pickups and dropoffs) in which each passenger id has
  exactly one pickup and one dropoff, the sequenced waypoints are a permutation of the
  input (the same multiset), and whenever a pickup at index \<open>i\<close> and a dropoff at index
  \<open>j\<close> of the output belong to the same passenger, \<open>i < j\<close>. This holds for every
  distance function and every constraints dictionary.
\<close>

theorem sequencer_permutation_and_order:
  assumes "one_pair_per_passenger wps"
  shows "mset (waypoints (optimize_with_genetic_algorithm geo wps cons)) = mset wps \<and>
    (\<forall>i j. i < length (waypoints (optimize_with_genetic_algorithm geo wps cons)) \<and>
           j < length (waypoints (optimize_with_genetic_algorithm geo wps cons)) \<and>
           wp_type (waypoints (optimize_with_genetic_algorithm geo wps cons) ! i) = ''pickup'' \<and>
           wp_type (waypoints (optimize_with_genetic_algorithm geo wps cons) ! j) = ''dropoff'' \<and>
           passenger_id (waypoints (optimize_with_genetic_algorithm geo wps cons) ! i) =
           passenger_id (waypoints (optimize_with_genetic_algorithm geo wps cons) ! j)
           \<longrightarrow> i < j)"
proof -
  define out where "out = sequence_waypoints geo wps cons"
  have o: "no_pickup_after_dropoff out"
    unfolding out_def by (rule sequence_waypoints_order [OF assms])
  have "i < j" if "i < length out" "j < length out" "wp_type (out ! i) = ''pickup''"
    "wp_type (out ! j) = ''dropoff''" "passenger_id (out ! i) = passenger_id (out ! j)" for i j
  proof (rule ccontr)
    assume "\<not> i < j"
    moreover from that(3,4) have "i \<noteq> j" by auto
    ultimately have "j < i" by simp
    from no_pickup_after_dropoff_nth [OF o this that(1) that(4) that(3)] that(5)
    show False by simp
  qed
  then show ?thesis
    unfolding waypoints_genetic out_def [symmetric]
    using sequence_waypoints_mset [OF assms, of geo cons] by (auto simp: out_def)
qed

text \<open>
  C3: for every \<^verbatim>\<open>max_passengers\<close> of at least 1 and every waypoint list (of pickups
  and dropoffs) in which each passenger has one pickup and one dropoff, replaying any
  prefix of the sequenced route leaves at most \<^verbatim>\<open>max_passengers\<close> distinct
  passengers in the vehicle.
\<close>

theorem sequencer_capacity:
  assumes "1 \<le> get_max_passengers cons" and "one_pair_per_passenger wps"
  shows "\<forall>k \<le> length (waypoints (optimize_with_genetic_algorithm geo wps cons)).
     int (card (in_vehicle_after (take k (waypoints (optimize_with_genetic_algorithm geo wps cons)))))
       \<le> get_max_passengers cons"
  using sequence_waypoints_capacity [OF assms, of geo]
  by (simp add: within_capacity_def waypoints_genetic)


subsection \<open>An unpaired dropoff\<close>

lemma visit_loop_unpaired:
  assumes p: "wp_type p = ''pickup''" and d: "wp_type d = ''dropoff''"
    and u: "wp_type u = ''dropoff''"
    and same: "passenger_id d = passenger_id p" and other: "passenger_id u \<noteq> passenger_id p"
    and ds: "ds = [d, u] \<or> ds = [u, d]"
  shows "visit_loop geo cons p [] ds {passenger_id p} [p] = Inr [p, d, u]"
proof -
  from same other have ne: "d \<noteq> u" by auto
  have c1: "loop_candidates cons [] ds {passenger_id p} = [d]"
    using ds same other by (auto simp: loop_candidates_def)
  have r: "py_remove d ds = Inr [u]"
    using ds ne by (auto simp: py_remove_def)
  have c2: "loop_candidates cons [] [u] ({passenger_id p} - {passenger_id d}) = []"
    using same by (simp add: loop_candidates_def)
  have last: "visit_loop geo cons d [] [u] ({passenger_id p} - {passenger_id d}) [p, d] = Inr [p, d, u]"
    by (subst visit_loop_unfold) (simp add: c2)
  have "ds \<noteq> []" using ds by auto
  then show ?thesis
    using d last by (subst visit_loop_unfold) (simp add: c1 r)
qed

lemma mset_pair_cases:
  assumes "mset xs = {#a, b#}"
  shows "xs = [a, b] \<or> xs = [b, a]"
proof -
  have "size (mset xs) = 2"
    using assms by simp
  then have "length xs = 2"
    by simp
  then obtain x y where "xs = [x, y]"
    by (auto simp: length_Suc_conv numeral_2_eq_2)
  with assms show ?thesis
    by (auto simp: add_eq_conv_ex)
qed

text \<open>
  C5 (amended): for three waypoints, a pickup and a dropoff of one passenger and a dropoff
  of another passenger who has no pickup, in any input order, sequencing raises nothing
  and returns all three: the pickup, its paired dropoff, and then the unpaired dropoff,
  which the fallback branch of the loop appends.
\<close>

theorem unpaired_dropoff_is_appended:
  assumes "wp_type p = ''pickup''" and "wp_type d = ''dropoff''" and "wp_type u = ''dropoff''"
    and "passenger_id d = passenger_id p" and "passenger_id u \<noteq> passenger_id p"
    and "mset wps = {#p, d, u#}"
  shows "multi_passenger_try geo (filter (\<lambda>wp. wp_type wp = ''pickup'') wps)
           (filter (\<lambda>wp. wp_type wp = ''dropoff'') wps) cons = Inr [p, d, u] \<and>
         waypoints (optimize_with_genetic_algorithm geo wps cons) = [p, d, u]"
proof -
  have "mset (filter (\<lambda>wp. wp_type wp = ''pickup'') wps) =
      filter_mset (\<lambda>wp. wp_type wp = ''pickup'') (mset wps)"
    by simp
  also have "\<dots> = {#p#}"
    using assms by simp
  finally have ps: "filter (\<lambda>wp. wp_type wp = ''pickup'') wps = [p]"
    by (simp only: mset_single_iff)
  have "mset (filter (\<lambda>wp. wp_type wp = ''dropoff'') wps) =
      filter_mset (\<lambda>wp. wp_type wp = ''dropoff'') (mset wps)"
    by simp
  also have "\<dots> = {#d, u#}"
    using assms by simp
  finally have ds: "filter (\<lambda>wp. wp_type wp = ''dropoff'') wps = [d, u] \<or>
      filter (\<lambda>wp. wp_type wp = ''dropoff'') wps = [u, d]"
    by (rule mset_pair_cases)
  have tried: "multi_passenger_try geo [p] (filter (\<lambda>wp. wp_type wp = ''dropoff'') wps) cons
      = Inr [p, d, u]"
    using visit_loop_unpaired [OF assms(1-5) ds] by (simp add: multi_passenger_try_def)
  from ds have "length (filter (\<lambda>wp. wp_type wp = ''dropoff'') wps) \<noteq> 1" by auto
  with tried ps show ?thesis
    by (simp add: waypoints_genetic sequence_waypoints_def optimize_multi_passenger_route_def)
qed


lemmas sample_stops = pickup1_def dropoff1_def pickup2_def dropoff2_def dropoff3_def mk_stop_def

theorem sequencer_permutation_and_order_witness:
  "one_pair_per_passenger [pickup1, dropoff1, pickup2, dropoff2] \<and>
   mset (waypoints (optimize_with_genetic_algorithm grid_km
     [pickup1, dropoff1, pickup2, dropoff2] \<lparr>max_passengers = Some 2\<rparr>)) =
   mset [pickup1, dropoff1, pickup2, dropoff2]"
proof -
  have h: "one_pair_per_passenger [pickup1, dropoff1, pickup2, dropoff2]"
    by (simp add: one_pair_per_passenger_def sample_stops)
  from sequencer_permutation_and_order [OF h, of grid_km "\<lparr>max_passengers = Some 2\<rparr>"] h
  show ?thesis by blast
qed

theorem sequencer_capacity_witness:
  "1 \<le> get_max_passengers \<lparr>max_passengers = Some 1\<rparr> \<and>
   one_pair_per_passenger [pickup1, dropoff1, pickup2, dropoff2] \<and>
   int (card (in_vehicle_after (take 3 (waypoints (optimize_with_genetic_algorithm grid_km
     [pickup1, dropoff1, pickup2, dropoff2] \<lparr>max_passengers = Some 1\<rparr>)))))
   \<le> get_max_passengers \<lparr>max_passengers = Some 1\<rparr>"
proof -
  have m: "1 \<le> get_max_passengers \<lparr>max_passengers = Some 1\<rparr>"
    by (simp add: get_max_passengers_def)
  have h: "one_pair_per_passenger [pickup1, dropoff1, pickup2, dropoff2]"
    by (simp add: one_pair_per_passenger_def sample_stops)
  have "length (waypoints (optimize_with_genetic_algorithm grid_km
     [pickup1, dropoff1, pickup2, dropoff2] \<lparr>max_passengers = Some 1\<rparr>)) = 4"
    using mset_eq_length [OF sequence_waypoints_mset [OF h, of grid_km "\<lparr>max_passengers = Some 1\<rparr>"]]
    by (simp add: waypoints_genetic)
  with sequencer_capacity [OF m h, of grid_km, rule_format, of 3] m h
  show ?thesis by simp
qed

theorem unpaired_dropoff_is_appended_witness:
  "wp_type pickup1 = ''pickup'' \<and> wp_type dropoff1 = ''dropoff'' \<and> wp_type dropoff3 = ''dropoff'' \<and>
   passenger_id dropoff1 = passenger_id pickup1 \<and> passenger_id dropoff3 \<noteq> passenger_id pickup1 \<and>
   waypoints (optimize_with_genetic_algorithm grid_km [dropoff3, pickup1, dropoff1]
     \<lparr>max_passengers = Some 2\<rparr>) = [pickup1, dropoff1, dropoff3]"
proof -
  have 1: "wp_type pickup1 = ''pickup''" and 2: "wp_type dropoff1 = ''dropoff''"
    and 3: "wp_type dropoff3 = ''dropoff''"
    and 4: "passenger_id dropoff1 = passenger_id pickup1"
    and 5: "passenger_id dropoff3 \<noteq> passenger_id pickup1"
    by (simp_all add: sample_stops)
  have 6: "mset [dropoff3, pickup1, dropoff1] = {#pickup1, dropoff1, dropoff3#}"
    by simp
  from unpaired_dropoff_is_appended [OF 1 2 3 4 5 6, of grid_km "\<lparr>max_passengers = Some 2\<rparr>"]
    1 2 3 4 5
  show ?thesis by blast
qed

text \<open>
  C5, as stated, fails: on a pickup and dropoff of \<open>p1\<close> and a dropoff of \<open>p3\<close>, who is
  never picked up, the body of the sequencer returns normally, and the route contains the
  unpaired dropoff.
\<close>

theorem unpaired_dropoff_no_error_counterexample:
  "multi_passenger_try grid_km [pickup1] [dropoff1, dropoff3] \<lparr>max_passengers = None\<rparr>
     = Inr [pickup1, dropoff1, dropoff3] \<and>
   waypoints (optimize_with_genetic_algorithm grid_km [pickup1, dropoff1, dropoff3]
     \<lparr>max_passengers = None\<rparr>) = [pickup1, dropoff1, dropoff3]"
  by (simp add: waypoints_genetic sequence_waypoints_def
      optimize_multi_passenger_route_def multi_passenger_try_def visit_loop.simps
      sample_stops get_max_passengers_def service_max_passengers_def grid_km_def
      coords_def py_remove_def)

section \<open>Properties of the entry point\<close>

lemma length_parse_waypoints_from: "length (parse_waypoints_from i wps) = length wps"
  by (induction wps arbitrary: i) simp_all

lemma length_parse_waypoints: "length (parse_waypoints wps) = length wps"
  by (simp add: parse_waypoints_def length_parse_waypoints_from)

lemma card_passengers_le: "card (passengers_of ws) \<le> length ws"
proof -
  have "card (passengers_of ws) \<le> length (filter (\<lambda>p. p \<noteq> []) (map passenger_id ws))"
    unfolding passengers_of_def by (rule card_length)
  also have "\<dots> \<le> length ws"
    using length_filter_le [of "\<lambda>p. p \<noteq> []" "map passenger_id ws"] by simp
  finally show ?thesis .
qed

lemma passengers_five:
  "passengers_of (parse_waypoints five_passengers) = {''a'', ''b'', ''c'', ''d'', ''e''}"
  by (auto simp: passengers_of_def parse_waypoints_def five_passengers_def mk_dict_def)

lemma card_passengers_five: "card (passengers_of (parse_waypoints five_passengers)) = 5"
  by (simp add: passengers_five)

lemma length_five_passengers: "length five_passengers = 5"
  by (simp add: five_passengers_def)

text \<open>
  C1 (amended): if the waypoint list has fewer than 2 waypoints, or if, on a cache miss, the
  number of distinct non-empty passenger ids exceeds the \<^verbatim>\<open>max_passengers\<close>
  constraint, the \<^verbatim>\<open>ValueError\<close> raised in the body is caught by
  \<^verbatim>\<open>optimize_route\<close> itself and the caller receives the fallback result, a normal
  dictionary, rather than an error.
\<close>

theorem optimize_route_returns_fallback:
  assumes "length wps < 2 \<or>
           (cached_result = None \<and>
            get_max_passengers (constraints_or_empty constraints)
              < int (card (passengers_of (parse_waypoints wps))))"
  shows "optimize_route geo cached_result wps constraints = Inr (fallback_route_optimization wps)"
  using assms
  by (auto simp: optimize_route_def optimize_route_try_def Let_def length_parse_waypoints)

theorem optimize_route_returns_fallback_witness:
  "get_max_passengers (constraints_or_empty (Some \<lparr>max_passengers = Some 3\<rparr>))
     < int (card (passengers_of (parse_waypoints five_passengers))) \<and>
   optimize_route grid_km None five_passengers (Some \<lparr>max_passengers = Some 3\<rparr>)
     = Inr (fallback_route_optimization five_passengers)"
proof -
  have h: "get_max_passengers (constraints_or_empty (Some \<lparr>max_passengers = Some 3\<rparr>))
     < int (card (passengers_of (parse_waypoints five_passengers)))"
    by (simp add: card_passengers_five get_max_passengers_def constraints_or_empty_def)
  then have "length five_passengers < 2 \<or>
           ((None :: route_response option) = None \<and>
            get_max_passengers (constraints_or_empty (Some \<lparr>max_passengers = Some 3\<rparr>))
              < int (card (passengers_of (parse_waypoints five_passengers))))"
    by simp
  from optimize_route_returns_fallback [OF this, of grid_km] h show ?thesis by simp
qed

text \<open>
  C1, as stated, fails: for a single waypoint the body raises, but the caller receives the
  fallback dictionary, not an error.
\<close>

theorem one_waypoint_no_error_counterexample:
  "optimize_route_try grid_km None [mk_dict ''pickup'' ''a''] None
     = Inl (ValueError ''At least 2 waypoints required'') \<and>
   optimize_route grid_km None [mk_dict ''pickup'' ''a''] None
     = Inr (fallback_route_optimization [mk_dict ''pickup'' ''a'']) \<and>
   error (fallback_route_optimization [mk_dict ''pickup'' ''a''])
     = Some ''Route optimization failed, using fallback''"
  by (simp add: optimize_route_def optimize_route_try_def parse_waypoints_def
      fallback_route_optimization_def)

text \<open>
  C10: for every constraints dictionary, the capacity that the passenger validation of
  \<^verbatim>\<open>optimize_route\<close> checks against is \<open>min (requested max_passengers) 4\<close>: on a
  cache miss with at least two waypoints the body raises its second \<^verbatim>\<open>ValueError\<close> exactly
  when the number of passengers (distinct non-empty passenger ids, as the code counts them)
  exceeds that minimum. So 5 or more passengers always take that path, whatever the caller
  requests.
\<close>

theorem passenger_capacity_clamped:
  "(2 \<le> length wps \<longrightarrow>
      (optimize_route_try geo None wps constraints = Inl (ValueError ''Too many passengers''))
      = (min (get_max_passengers (constraints_or_empty constraints)) 4
           < int (card (passengers_of (parse_waypoints wps))))) \<and>
   (5 \<le> card (passengers_of (parse_waypoints wps)) \<longrightarrow>
      optimize_route_try geo None wps constraints = Inl (ValueError ''Too many passengers''))"
proof (intro conjI impI)
  assume "2 \<le> length wps"
  then show "(optimize_route_try geo None wps constraints = Inl (ValueError ''Too many passengers''))
      = (min (get_max_passengers (constraints_or_empty constraints)) 4
           < int (card (passengers_of (parse_waypoints wps))))"
    by (simp add: optimize_route_try_def Let_def length_parse_waypoints service_max_passengers_def)
next
  assume five: "5 \<le> card (passengers_of (parse_waypoints wps))"
  with card_passengers_le [of "parse_waypoints wps"] have "2 \<le> length wps"
    by (simp add: length_parse_waypoints)
  moreover from five
  have "min (get_max_passengers (constraints_or_empty constraints)) 4
      < int (card (passengers_of (parse_waypoints wps)))"
    by simp
  ultimately show "optimize_route_try geo None wps constraints = Inl (ValueError ''Too many passengers'')"
    by (simp add: optimize_route_try_def Let_def length_parse_waypoints service_max_passengers_def)
qed

theorem passenger_capacity_clamped_witness:
  "2 \<le> length five_passengers \<and> 5 \<le> card (passengers_of (parse_waypoints five_passengers)) \<and>
   get_max_passengers (constraints_or_empty (Some \<lparr>max_passengers = Some 6\<rparr>)) = 6 \<and>
   optimize_route_try grid_km None five_passengers (Some \<lparr>max_passengers = Some 6\<rparr>)
     = Inl (ValueError ''Too many passengers'')"
proof -
  have 1: "2 \<le> length five_passengers"
    by (simp add: length_five_passengers)
  have 2: "5 \<le> card (passengers_of (parse_waypoints five_passengers))"
    by (simp add: card_passengers_five)
  have 3: "get_max_passengers (constraints_or_empty (Some \<lparr>max_passengers = Some 6\<rparr>)) = 6"
    by (simp add: get_max_passengers_def constraints_or_empty_def)
  from passenger_capacity_clamped [of five_passengers grid_km "Some \<lparr>max_passengers = Some 6\<rparr>"]
    1 2 3
  show ?thesis by blast
qed

text \<open>
  C6 (amended): route optimisation does substitute fixed numbers for a failed computation.
  Whenever the body of \<^verbatim>\<open>optimize_route\<close> raises, the caller receives a normal
  result whose summary is the fixed 10.0 km, 30.0 minutes and efficiency 0.5; and when the
  division in the efficiency score fails, the score is 0.5.
\<close>

theorem failures_become_fixed_numbers:
  "(optimize_route_try geo cached_result wps constraints = Inl e \<longrightarrow>
      optimize_route geo cached_result wps constraints = Inr (fallback_route_optimization wps) \<and>
      total_distance_km (summary (fallback_route_optimization wps)) = 10 \<and>
      total_time_minutes (summary (fallback_route_optimization wps)) = 30 \<and>
      summary_efficiency_score (summary (fallback_route_optimization wps)) = 1 / 2) \<and>
   (calculate_total_distance geo original \<noteq> 0 \<and> calculate_total_distance geo optimized = 0 \<longrightarrow>
      calculate_efficiency_score geo optimized original = 1 / 2)"
  by (simp add: optimize_route_def fallback_route_optimization_def
      calculate_efficiency_score_def py_div_def)

theorem failures_become_fixed_numbers_witness:
  "optimize_route_try grid_km None five_passengers None = Inl (ValueError ''Too many passengers'') \<and>
   optimize_route grid_km None five_passengers None = Inr (fallback_route_optimization five_passengers) \<and>
   summary_efficiency_score (summary (fallback_route_optimization five_passengers)) = 1 / 2"
proof -
  have "optimize_route_try grid_km None five_passengers None = Inl (ValueError ''Too many passengers'')"
    by (simp add: optimize_route_try_def Let_def length_parse_waypoints card_passengers_five
        get_max_passengers_def constraints_or_empty_def service_max_passengers_def
        length_five_passengers)
  with failures_become_fixed_numbers [of grid_km None five_passengers None
      "ValueError ''Too many passengers''"]
  show ?thesis by simp
qed

text \<open>
  C6, as stated, fails: for an empty waypoint list the body of \<^verbatim>\<open>optimize_route\<close>
  raises, and the failure reaches the caller as default numbers inside a normal result.
\<close>

theorem empty_input_fixed_numbers_counterexample:
  "optimize_route_try grid_km None [] None = Inl (ValueError ''At least 2 waypoints required'') \<and>
   optimize_route grid_km None [] None = Inr (fallback_route_optimization []) \<and>
   summary (fallback_route_optimization []) =
     \<lparr>total_distance_km = 10, total_time_minutes = 30, summary_efficiency_score = 1 / 2,
      total_passengers = 0\<rparr>"
  by (simp add: optimize_route_def optimize_route_try_def parse_waypoints_def
      fallback_route_optimization_def)

section \<open>Properties of the per-passenger routes\<close>

lemma last_match_Nil: "last_match P [] d = d"
  by (simp add: last_match_def)

lemma last_match_Cons:
  "last_match P (x # xs) d = last_match P xs (if P x then Some x else d)"
  by (cases "filter P xs") (simp_all add: last_match_def)

lemma last_match_none: "\<forall>x \<in> set xs. \<not> P x \<Longrightarrow> last_match P xs d = d"
  by (induction xs arbitrary: d) (simp_all add: last_match_Nil last_match_Cons)

lemma last_match_single: "filter P xs = [x] \<Longrightarrow> last_match P xs d = Some x"
  by (simp add: last_match_def)

lemma group_by_passenger_entry:
  "map_of (group_by_passenger wps acc) p =
     (if p \<in> passenger_id ` set wps
      then Some (last_match (\<lambda>w. passenger_id w = p \<and> wp_type w = ''pickup'') wps
                   (fst (entry_of acc p)),
                 last_match (\<lambda>w. passenger_id w = p \<and> wp_type w \<noteq> ''pickup'') wps
                   (snd (entry_of acc p)))
      else map_of acc p)"
proof (induction wps arbitrary: acc)
  case Nil
  then show ?case by simp
next
  case (Cons w rest)
  define v where "v = (if wp_type w = ''pickup'' then (Some w, snd (entry_of acc (passenger_id w)))
      else (fst (entry_of acc (passenger_id w)), Some w))"
  define acc' where "acc' = AList.update (passenger_id w) v acc"
  have step: "group_by_passenger (w # rest) acc = group_by_passenger rest acc'"
    by (simp add: acc'_def v_def entry_of_def split: prod.splits option.splits)
  have m: "map_of acc' = (map_of acc)(passenger_id w \<mapsto> v)"
    by (simp add: acc'_def update_conv')
  show ?case
  proof (cases "p = passenger_id w")
    case True
    then have pw: "passenger_id w = p"
      by simp
    have e: "entry_of acc' p = v"
      by (simp add: entry_of_def m pw)
    have f: "fst v = (if wp_type w = ''pickup'' then Some w else fst (entry_of acc p))"
      and g: "snd v = (if wp_type w \<noteq> ''pickup'' then Some w else snd (entry_of acc p))"
      by (simp_all add: v_def pw)
    show ?thesis
    proof (cases "p \<in> passenger_id ` set rest")
      case in_rest: True
      then show ?thesis
        unfolding step by (simp add: Cons.IH last_match_Cons pw e f g)
    next
      case False
      then have "\<forall>x \<in> set rest. \<not> (passenger_id x = p \<and> wp_type x = ''pickup'')"
        and "\<forall>x \<in> set rest. \<not> (passenger_id x = p \<and> wp_type x \<noteq> ''pickup'')"
        by auto
      then have "last_match (\<lambda>x. passenger_id x = p \<and> wp_type x = ''pickup'') rest (fst v) = fst v"
        and "last_match (\<lambda>x. passenger_id x = p \<and> wp_type x \<noteq> ''pickup'') rest (snd v) = snd v"
        by (simp_all add: last_match_none)
      with False show ?thesis
        unfolding step by (simp add: Cons.IH last_match_Cons pw m f [symmetric] g [symmetric])
    qed
  next
    case False
    then have e: "entry_of acc' p = entry_of acc p"
      by (simp add: entry_of_def m)
    from False show ?thesis
      unfolding step by (auto simp: Cons.IH last_match_Cons e m)
  qed
qed

lemma index_of_id_absent:
  assumes "x \<notin> wp_id ` set route"
  shows "index_of_id x route = - 1"
proof -
  have "find (\<lambda>(i, wp). wp_id wp = x) (enumerate 0 route) = None"
    using assms by (auto simp: find_None_iff in_set_enumerate_eq)
  then show ?thesis
    by (simp add: index_of_id_def)
qed

lemma calculate_waypoint_eta_negative: "calculate_waypoint_eta geo wps (- 1) = 0"
  by (simp add: calculate_waypoint_eta_def)

lemma map_filter_member:
  "x \<in> set xs \<Longrightarrow> f x = Some y \<Longrightarrow> y \<in> set (List.map_filter f xs)"
  by (induction xs) (auto split: option.splits)

lemma passenger_route_in_result:
  assumes "map_of (group_by_passenger wps []) p = Some (Some pickup, Some dropoff)"
  shows "(p, passenger_route_of geo (waypoints optimized) pickup dropoff)
     \<in> set (calculate_passenger_routes geo optimized wps)"
proof -
  from assms have "(p, (Some pickup, Some dropoff)) \<in> set (group_by_passenger wps [])"
    by (rule map_of_SomeD)
  then show ?thesis
    unfolding calculate_passenger_routes_def by (rule map_filter_member) simp
qed

lemma one_pair_entry:
  assumes pairs: "one_pair_per_passenger wps"
    and pk: "pickup \<in> set wps" "wp_type pickup = ''pickup''"
    and dp: "dropoff \<in> set wps" "wp_type dropoff = ''dropoff''"
    and same: "passenger_id dropoff = passenger_id pickup"
  shows "map_of (group_by_passenger wps []) (passenger_id pickup) = Some (Some pickup, Some dropoff)"
proof -
  let ?p = "passenger_id pickup"
  have single: "length (filter P wps) = 1 \<Longrightarrow> x \<in> set wps \<Longrightarrow> P x \<Longrightarrow> filter P wps = [x]"
    for P and x :: waypoint
  proof -
    assume "length (filter P wps) = 1" and "x \<in> set wps" and "P x"
    then obtain y where y: "filter P wps = [y]"
      by (auto simp: length_Suc_conv)
    moreover from \<open>x \<in> set wps\<close> \<open>P x\<close> have "x \<in> set (filter P wps)" by simp
    ultimately show "filter P wps = [x]" by simp
  qed
  from pairs pk(1)
  have "length (filter (\<lambda>v. wp_type v = ''pickup'' \<and> passenger_id v = ?p) wps) = 1"
    by (simp add: one_pair_per_passenger_def)
  then have "length (filter (\<lambda>w. passenger_id w = ?p \<and> wp_type w = ''pickup'') wps) = 1"
    by (simp add: conj_commute)
  from single [OF this pk(1)] pk(2)
  have 1: "filter (\<lambda>w. passenger_id w = ?p \<and> wp_type w = ''pickup'') wps = [pickup]"
    by simp
  from pairs have ty: "\<forall>w \<in> set wps. wp_type w = ''pickup'' \<or> wp_type w = ''dropoff''"
    by (simp add: one_pair_per_passenger_def)
  then have "filter (\<lambda>w. passenger_id w = ?p \<and> wp_type w \<noteq> ''pickup'') wps =
      filter (\<lambda>v. wp_type v = ''dropoff'' \<and> passenger_id v = ?p) wps"
    by (intro filter_cong) auto
  moreover from pairs pk(1)
  have "length (filter (\<lambda>v. wp_type v = ''dropoff'' \<and> passenger_id v = ?p) wps) = 1"
    by (simp add: one_pair_per_passenger_def)
  ultimately
  have "length (filter (\<lambda>w. passenger_id w = ?p \<and> wp_type w \<noteq> ''pickup'') wps) = 1"
    by simp
  from single [OF this dp(1)] dp(2) same
  have 2: "filter (\<lambda>w. passenger_id w = ?p \<and> wp_type w \<noteq> ''pickup'') wps = [dropoff]"
    by simp
  from pk(1) have "?p \<in> passenger_id ` set wps" by simp
  then show ?thesis
    by (simp add: group_by_passenger_entry last_match_single [OF 1] last_match_single [OF 2])
qed

text \<open>
  C4 (amended): if a passenger's pickup or dropoff waypoint is absent from the sequenced
  list given to the evaluator, the evaluator does not fail: it still returns a segment for
  that passenger, in which the order and the estimated time of the absent waypoint are 0.
\<close>

theorem absent_waypoint_gives_zeroed_segment:
  assumes "one_pair_per_passenger wps"
    and "pickup \<in> set wps" and "wp_type pickup = ''pickup''"
    and "dropoff \<in> set wps" and "wp_type dropoff = ''dropoff''"
    and "passenger_id dropoff = passenger_id pickup"
  shows "\<exists>r. (passenger_id pickup, r) \<in> set (calculate_passenger_routes geo optimized wps) \<and>
           (wp_id pickup \<notin> wp_id ` set (waypoints optimized) \<longrightarrow>
              pickup_order r = 0 \<and> estimated_pickup_time r = 0) \<and>
           (wp_id dropoff \<notin> wp_id ` set (waypoints optimized) \<longrightarrow>
              dropoff_order r = 0 \<and> estimated_dropoff_time r = 0)"
proof -
  let ?r = "passenger_route_of geo (waypoints optimized) pickup dropoff"
  have "(passenger_id pickup, ?r) \<in> set (calculate_passenger_routes geo optimized wps)"
    by (rule passenger_route_in_result) (rule one_pair_entry [OF assms])
  moreover have "pickup_order ?r = 0 \<and> estimated_pickup_time ?r = 0"
    if "wp_id pickup \<notin> wp_id ` set (waypoints optimized)"
    using that
    by (simp add: passenger_route_of_def Let_def index_of_id_absent calculate_waypoint_eta_negative)
  moreover have "dropoff_order ?r = 0 \<and> estimated_dropoff_time ?r = 0"
    if "wp_id dropoff \<notin> wp_id ` set (waypoints optimized)"
    using that
    by (simp add: passenger_route_of_def Let_def index_of_id_absent calculate_waypoint_eta_negative)
  ultimately show ?thesis by blast
qed


theorem absent_waypoint_gives_zeroed_segment_witness:
  "one_pair_per_passenger [pickup1, dropoff1] \<and>
   wp_id dropoff1 \<notin> wp_id ` set (waypoints pickup_only_route) \<and>
   (\<exists>r. (passenger_id pickup1, r)
          \<in> set (calculate_passenger_routes grid_km pickup_only_route [pickup1, dropoff1]) \<and>
        dropoff_order r = 0 \<and> estimated_dropoff_time r = 0)"
proof -
  have 1: "one_pair_per_passenger [pickup1, dropoff1]"
    by (simp add: one_pair_per_passenger_def pickup1_def dropoff1_def mk_stop_def)
  have 2: "wp_id dropoff1 \<notin> wp_id ` set (waypoints pickup_only_route)"
    by (simp add: pickup_only_route_def pickup1_def dropoff1_def mk_stop_def)
  have 3: "pickup1 \<in> set [pickup1, dropoff1]" "wp_type pickup1 = ''pickup''"
    "dropoff1 \<in> set [pickup1, dropoff1]" "wp_type dropoff1 = ''dropoff''"
    "passenger_id dropoff1 = passenger_id pickup1"
    by (simp_all add: pickup1_def dropoff1_def mk_stop_def)
  from absent_waypoint_gives_zeroed_segment [OF 1 3, of grid_km pickup_only_route] 1 2
  show ?thesis by blast
qed

text \<open>
  C4, as stated, fails: with the dropoff of \<open>p1\<close> missing from the sequenced route, the
  evaluator returns a segment for \<open>p1\<close> with dropoff order 0 and all times 0.
\<close>

theorem absent_dropoff_zeroed_counterexample:
  "calculate_passenger_routes grid_km pickup_only_route [pickup1, dropoff1] =
     [(''p1'',
       \<lparr>pickup_order = 1, dropoff_order = 0, direct_distance_km = 3,
        estimated_pickup_time = 0, estimated_dropoff_time = 0,
        estimated_ride_time_minutes = 0,
        pickup_location = \<lparr>loc_latitude = 0, loc_longitude = 0, loc_address = []\<rparr>,
        dropoff_location = \<lparr>loc_latitude = 0, loc_longitude = 3, loc_address = []\<rparr>\<rparr>)]"
  by (simp add: calculate_passenger_routes_def passenger_route_of_def index_of_id_def
      calculate_waypoint_eta_def py_int_def py_round_def round_half_even_def grid_km_def
      coords_def pickup_only_route_def pickup1_def dropoff1_def mk_stop_def)

section \<open>Properties of ride matching\<close>










lemma ranked_matches_descending:
  "sorted_wrt (\<lambda>a b. compatibility_score b \<le> compatibility_score a) (ranked_matches ms)"
proof -
  have "sorted (map (\<lambda>m. - compatibility_score m) (sort_key (\<lambda>m. - compatibility_score m) ms))"
    by (rule sorted_sort_key)
  then have "sorted_wrt (\<lambda>a b. compatibility_score b \<le> compatibility_score a)
      (sort_key (\<lambda>m. - compatibility_score m) ms)"
    by (simp add: sorted_wrt_map)
  then show ?thesis
    unfolding ranked_matches_def by (rule sorted_wrt_take)
qed



lemma filter_take_prefix:
  "filter P (take n xs) = take (length (filter P (take n xs))) (filter P xs)"
proof (induction xs arbitrary: n)
  case Nil
  then show ?case by simp
next
  case (Cons x xs)
  show ?case
  proof (cases n)
    case 0
    then show ?thesis by simp
  next
    case (Suc k)
    with Cons.IH [of k] show ?thesis by simp
  qed
qed

lemma ranked_matches_stable:
  "filter (\<lambda>m. compatibility_score m = k) (ranked_matches ms) =
     take (length (filter (\<lambda>m. compatibility_score m = k) (ranked_matches ms)))
       (filter (\<lambda>m. compatibility_score m = k) ms)"
proof -
  have "filter (\<lambda>m. - compatibility_score m = - k) (sort_key (\<lambda>m. - compatibility_score m) ms)
      = filter (\<lambda>m. - compatibility_score m = - k) ms"
    by (rule sort_key_stable)
  then have "filter (\<lambda>m. compatibility_score m = k) (sort_key (\<lambda>m. - compatibility_score m) ms)
      = filter (\<lambda>m. compatibility_score m = k) ms"
    by simp
  with filter_take_prefix [of "\<lambda>m. compatibility_score m = k" 20
      "sort_key (\<lambda>m. - compatibility_score m) ms"]
  show ?thesis
    by (simp add: ranked_matches_def)
qed

lemma nth_pair_subseq:
  "i < j \<Longrightarrow> j < length xs \<Longrightarrow> subseq [xs ! i, xs ! j] xs"
proof (induction xs arbitrary: i j)
  case Nil
  then show ?case by simp
next
  case (Cons x xs)
  from Cons.prems obtain j' where j: "j = Suc j'" and j': "j' < length xs"
    by (cases j) auto
  show ?case
  proof (cases i)
    case 0
    from j' have "subseq [xs ! j'] xs"
      by (simp add: subseq_singleton_left)
    with 0 j show ?thesis by simp
  next
    case (Suc i')
    with Cons.prems j have "i' < j'" by simp
    from Cons.IH [OF this j'] have "subseq [xs ! i', xs ! j'] (x # xs)"
      by (rule list_emb_Cons)
    with Suc j show ?thesis by simp
  qed
qed

lemma subseq_pair_nth:
  "subseq [x, y] xs \<Longrightarrow> \<exists>a b. a < b \<and> b < length xs \<and> xs ! a = x \<and> xs ! b = y"
proof (induction xs)
  case Nil
  then show ?case by simp
next
  case (Cons z zs)
  show ?case
  proof (cases "x = z")
    case True
    with Cons.prems have "y \<in> set zs"
      by (simp add: subseq_singleton_left)
    then obtain k where "k < length zs" and "zs ! k = y"
      by (auto simp: in_set_conv_nth)
    with True have "0 < Suc k \<and> Suc k < length (z # zs) \<and> (z # zs) ! 0 = x \<and> (z # zs) ! Suc k = y"
      by simp
    then show ?thesis by blast
  next
    case False
    with Cons.prems have "subseq [x, y] zs" by simp
    from Cons.IH [OF this] obtain a b where "a < b" "b < length zs" "zs ! a = x" "zs ! b = y"
      by blast
    then have "Suc a < Suc b \<and> Suc b < length (z # zs) \<and> (z # zs) ! Suc a = x \<and> (z # zs) ! Suc b = y"
      by simp
    then show ?thesis by blast
  qed
qed

lemma map_filter_pair_source:
  assumes "subseq [x, y] (List.map_filter g xs)"
  shows "\<exists>a b. a < b \<and> b < length xs \<and> g (xs ! a) = Some x \<and> g (xs ! b) = Some y"
proof -
  let ?F = "filter (\<lambda>r. g r \<noteq> None) xs"
  have mf: "List.map_filter g xs = map (the \<circ> g) ?F"
    by (simp add: List.map_filter_def)
  from subseq_pair_nth [OF assms] obtain a' b' where ab: "a' < b'" "b' < length ?F"
    and x: "(the \<circ> g) (?F ! a') = x" and y: "(the \<circ> g) (?F ! b') = y"
    by (auto simp: mf)
  from ab have "a' < length ?F"
    by simp
  then have "?F ! a' \<in> set ?F"
    by (rule nth_mem)
  then have na: "g (?F ! a') \<noteq> None"
    by simp
  from ab(2) have "?F ! b' \<in> set ?F"
    by (rule nth_mem)
  then have nb: "g (?F ! b') \<noteq> None"
    by simp
  note na nb
  with x y have gx: "g (?F ! a') = Some x" and gy: "g (?F ! b') = Some y"
    by auto
  from ab have "subseq [?F ! a', ?F ! b'] ?F"
    by (intro nth_pair_subseq)
  then have "subseq [?F ! a', ?F ! b'] xs"
    by (rule subseq_order.trans) simp
  from subseq_pair_nth [OF this] gx gy show ?thesis
    by metis
qed

lemma ranked_equal_scores_subseq:
  assumes "i < j" and "j < length (ranked_matches ms)"
    and "compatibility_score (ranked_matches ms ! i) = compatibility_score (ranked_matches ms ! j)"
  shows "subseq [ranked_matches ms ! i, ranked_matches ms ! j] ms"
proof -
  let ?R = "ranked_matches ms"
  let ?P = "\<lambda>m. compatibility_score m = compatibility_score (?R ! i)"
  from assms(1,2) have "subseq [?R ! i, ?R ! j] ?R"
    by (rule nth_pair_subseq)
  then have "subseq (filter ?P [?R ! i, ?R ! j]) (filter ?P ?R)"
    by (rule subseq_filter)
  with assms(3) have "subseq [?R ! i, ?R ! j] (filter ?P ?R)"
    by simp
  also have "filter ?P ?R = take (length (filter ?P ?R)) (filter ?P ms)"
    by (rule ranked_matches_stable)
  also have "subseq \<dots> (filter ?P ms)"
    by (intro prefix_imp_subseq take_is_prefix)
  also have "subseq (filter ?P ms) ms"
    by simp
  finally show ?thesis .
qed

text \<open>
  C8 (amended): the ranked output is the list of the ranked matches, each converted to a
  dictionary, and the ranked matches are the first 20 of a stable sort on the unrounded
  score. Of two results, the earlier one never has the lower unrounded score, also when
  their returned scores, rounded to three decimals, are equal. When their unrounded scores
  are equal, they come from two candidates of which the first is earlier in the candidate
  list: ties keep the candidate order, and for every score \<open>k\<close> the ranked matches of
  score \<open>k\<close> are an initial part of the scored candidates of score \<open>k\<close>. So the
  ranking is determined by the unrounded scores and the candidate order; origin distance
  and candidate id play no part.
\<close>

theorem ties_keep_candidate_order:
  assumes "cached_result = None \<or> cached_result = Some []" and "available_rides \<noteq> []"
  shows "find_matches geo current_year cached_result (Some departure) available_rides origin
       destination prefs =
     Inr (map match_to_dict (ranked_matches
       (scored_matches geo current_year available_rides origin destination departure prefs))) \<and>
     (\<forall>i j. i < j \<and> j < length (ranked_matches
          (scored_matches geo current_year available_rides origin destination departure prefs)) \<longrightarrow>
        compatibility_score (ranked_matches
          (scored_matches geo current_year available_rides origin destination departure prefs) ! j)
        \<le> compatibility_score (ranked_matches
          (scored_matches geo current_year available_rides origin destination departure prefs) ! i) \<and>
        (compatibility_score (ranked_matches
           (scored_matches geo current_year available_rides origin destination departure prefs) ! i)
         = compatibility_score (ranked_matches
           (scored_matches geo current_year available_rides origin destination departure prefs) ! j)
         \<longrightarrow> (\<exists>a b. a < b \<and> b < length available_rides \<and>
                calculate_compatibility geo current_year (available_rides ! a) origin destination
                  departure prefs
                = Some (ranked_matches (scored_matches geo current_year available_rides origin
                     destination departure prefs) ! i) \<and>
                calculate_compatibility geo current_year (available_rides ! b) origin destination
                  departure prefs
                = Some (ranked_matches (scored_matches geo current_year available_rides origin
                     destination departure prefs) ! j)))) \<and>
     (\<forall>k. filter (\<lambda>m. compatibility_score m = k) (ranked_matches
              (scored_matches geo current_year available_rides origin destination departure prefs)) =
          take (length (filter (\<lambda>m. compatibility_score m = k) (ranked_matches
              (scored_matches geo current_year available_rides origin destination departure prefs))))
            (filter (\<lambda>m. compatibility_score m = k)
              (scored_matches geo current_year available_rides origin destination departure prefs)))"
proof -
  define g where "g = (\<lambda>r.
      case calculate_compatibility geo current_year r origin destination departure prefs of
        None \<Rightarrow> None
      | Some m \<Rightarrow> if 3 / 10 < compatibility_score m then Some m else None)"
  define S where "S = scored_matches geo current_year available_rides origin destination departure prefs"
  define R where "R = ranked_matches S"
  have S: "S = List.map_filter g available_rides"
    by (simp add: S_def scored_matches_def g_def)
  have g: "calculate_compatibility geo current_year r origin destination departure prefs = Some m"
    if "g r = Some m" for r m
    using that by (auto simp: g_def split: option.splits if_splits)
  have 1: "find_matches geo current_year cached_result (Some departure) available_rides origin
       destination prefs = Inr (map match_to_dict R)"
    using assms by (auto simp: find_matches_def R_def S_def)
  have 2: "compatibility_score (R ! j) \<le> compatibility_score (R ! i)"
    if "i < j" "j < length R" for i j
    using ranked_matches_descending [of S] that
    by (simp add: sorted_wrt_iff_nth_less R_def)
  have 3: "\<exists>a b. a < b \<and> b < length available_rides \<and>
      calculate_compatibility geo current_year (available_rides ! a) origin destination
        departure prefs = Some (R ! i) \<and>
      calculate_compatibility geo current_year (available_rides ! b) origin destination
        departure prefs = Some (R ! j)"
    if "i < j" "j < length R" "compatibility_score (R ! i) = compatibility_score (R ! j)" for i j
  proof -
    from that have "subseq [R ! i, R ! j] S"
      unfolding R_def by (rule ranked_equal_scores_subseq)
    then obtain a b where "a < b" "b < length available_rides"
      "g (available_rides ! a) = Some (R ! i)" "g (available_rides ! b) = Some (R ! j)"
      unfolding S by (blast dest: map_filter_pair_source)
    then show ?thesis
      by (blast intro: g)
  qed
  have 4: "filter (\<lambda>m. compatibility_score m = k) R =
      take (length (filter (\<lambda>m. compatibility_score m = k) R))
        (filter (\<lambda>m. compatibility_score m = k) S)" for k
    unfolding R_def by (rule ranked_matches_stable)
  from 1 2 3 4 show ?thesis
    unfolding R_def S_def by blast
qed


lemmas ride_defs = find_matches_def scored_matches_def ranked_matches_def
  calculate_compatibility_def calculate_route_efficiency_def calculate_vehicle_score_def
  estimate_times_def div_or_none_def py_div_def match_to_dict_def py_round_def
  round_half_even_def grid_km_def no_preferences_def same_trip_ride_def far_ride_def
  sample_vehicle_def


text \<open>
  C8, as stated, fails: three identical rides with ids \<open>b\<close>, \<open>a\<close>, \<open>c\<close> have equal
  scores and equal origin distances, and are returned in the order of the candidate list,
  not in the order of their ids.
\<close>

theorem ties_ignore_candidate_id_counterexample:
  "map_sum id (map d_ride_id)
     (find_matches grid_km 2026 None (Some 0)
        [same_trip_ride ''b'', same_trip_ride ''a'', same_trip_ride ''c'']
        (0, 0) (0, 1 / 100) no_preferences) = Inr [''b'', ''a'', ''c''] \<and>
   map_sum id (map d_compatibility_score)
     (find_matches grid_km 2026 None (Some 0)
        [same_trip_ride ''b'', same_trip_ride ''a'', same_trip_ride ''c'']
        (0, 0) (0, 1 / 100) no_preferences) = Inr [1, 1, 1] \<and>
   map_sum id (map d_distance_from_origin)
     (find_matches grid_km 2026 None (Some 0)
        [same_trip_ride ''b'', same_trip_ride ''a'', same_trip_ride ''c'']
        (0, 0) (0, 1 / 100) no_preferences) = Inr [0, 0, 0]"
  by (simp add: ride_defs Let_def)



lemma three_rated_scores:
  "map compatibility_score (ranked_matches
     (scored_matches grid_km 2026 three_rated (0, 0) (0, 1 / 100) 0 no_preferences))
   = [1, 1, 7997 / 8000]"
  by (simp add: three_rated_def rated_ride_def ride_defs Let_def)

theorem ties_keep_candidate_order_witness:
  "three_rated \<noteq> [] \<and>
   find_matches grid_km 2026 None (Some 0) three_rated (0, 0) (0, 1 / 100) no_preferences =
     Inr (map match_to_dict (ranked_matches
       (scored_matches grid_km 2026 three_rated (0, 0) (0, 1 / 100) 0 no_preferences))) \<and>
   map_sum id (map d_ride_id)
     (find_matches grid_km 2026 None (Some 0) three_rated (0, 0) (0, 1 / 100) no_preferences)
     = Inr [''B'', ''C'', ''A''] \<and>
   map_sum id (map d_compatibility_score)
     (find_matches grid_km 2026 None (Some 0) three_rated (0, 0) (0, 1 / 100) no_preferences)
     = Inr [1, 1, 1] \<and>
   compatibility_score (ranked_matches
       (scored_matches grid_km 2026 three_rated (0, 0) (0, 1 / 100) 0 no_preferences) ! 2)
     \<le> compatibility_score (ranked_matches
       (scored_matches grid_km 2026 three_rated (0, 0) (0, 1 / 100) 0 no_preferences) ! 1) \<and>
   (\<exists>a b. a < b \<and> b < length three_rated \<and>
      calculate_compatibility grid_km 2026 (three_rated ! a) (0, 0) (0, 1 / 100) 0 no_preferences
        = Some (ranked_matches
            (scored_matches grid_km 2026 three_rated (0, 0) (0, 1 / 100) 0 no_preferences) ! 0) \<and>
      calculate_compatibility grid_km 2026 (three_rated ! b) (0, 0) (0, 1 / 100) 0 no_preferences
        = Some (ranked_matches
            (scored_matches grid_km 2026 three_rated (0, 0) (0, 1 / 100) 0 no_preferences) ! 1))"
proof -
  let ?R = "ranked_matches
    (scored_matches grid_km 2026 three_rated (0, 0) (0, 1 / 100) 0 no_preferences)"
  have ne: "three_rated \<noteq> []"
    by (simp add: three_rated_def)
  have len: "length ?R = 3"
    using arg_cong [OF three_rated_scores, of length] by simp
  have "map compatibility_score ?R ! 0 = map compatibility_score ?R ! 1"
    by (simp add: three_rated_scores)
  with len have eq: "compatibility_score (?R ! 0) = compatibility_score (?R ! 1)"
    by simp
  have ids: "map_sum id (map d_ride_id)
      (find_matches grid_km 2026 None (Some 0) three_rated (0, 0) (0, 1 / 100) no_preferences)
      = Inr [''B'', ''C'', ''A'']"
    by (simp add: three_rated_def rated_ride_def ride_defs Let_def)
  have scores: "map_sum id (map d_compatibility_score)
      (find_matches grid_km 2026 None (Some 0) three_rated (0, 0) (0, 1 / 100) no_preferences)
      = Inr [1, 1, 1]"
    by (simp add: three_rated_def rated_ride_def ride_defs Let_def)
  have c: "(None :: match_dict list option) = None \<or> (None :: match_dict list option) = Some []"
    by simp
  note t = ties_keep_candidate_order [OF c ne, of grid_km 2026 0 "(0, 0)" "(0, 1 / 100)"
      no_preferences]
  from t have 1: "find_matches grid_km 2026 None (Some 0) three_rated (0, 0) (0, 1 / 100)
      no_preferences = Inr (map match_to_dict ?R)"
    by blast
  from t len have 2: "compatibility_score (?R ! 2) \<le> compatibility_score (?R ! 1)"
    by simp
  from t len eq have 3: "\<exists>a b. a < b \<and> b < length three_rated \<and>
      calculate_compatibility grid_km 2026 (three_rated ! a) (0, 0) (0, 1 / 100) 0 no_preferences
        = Some (?R ! 0) \<and>
      calculate_compatibility grid_km 2026 (three_rated ! b) (0, 0) (0, 1 / 100) 0 no_preferences
        = Some (?R ! 1)"
    by simp
  from ne 1 ids scores 2 3 show ?thesis
    by blast
qed

end
